theory Spec2Isabelle
  imports Main "HOL-Library.Word"
begin

section \<open>CertificateNft: a shallow embedding of the soulbound credential registry\<close>

text \<open>
  The development embeds \<^verbatim>\<open>smart-contracts/contracts/CertificateNft.sol\<close>. Storage is a
  record that every function takes and returns; a \<^verbatim>\<open>require\<close> that fails, a custom
  error of the inherited contracts and an arithmetic panic are values \<open>Inl err\<close> of a sum
  type; a call from outside is \<open>transact\<close>, which keeps the storage it started from when
  the body fails, as a reverted EVM call does. The one call the contract makes to the
  outside, the ERC721 receiver check of a safe mint or transfer, is modelled with what
  the recipient does during it: the calls it makes back into the contract, and its
  answer.

  Naming: a Solidity name \<^verbatim>\<open>_f\<close> is written \<open>f\<close>, or \<open>f_internal\<close> where the
  contract also has a public \<^verbatim>\<open>f\<close>; \<^verbatim>\<open>super._update\<close> is \<open>super_update\<close>.
\<close>

subsection \<open>Data\<close>

type_synonym address = "160 word"
type_synonym uint256 = "256 word"
type_synonym bytes32 = "256 word"

text \<open>\<^verbatim>\<open>enum IssuerStatus { Active, Suspended, Deactivated }\<close>: the first constructor is
  the value of a storage slot that was never written.\<close>

datatype IssuerStatus = Active | Suspended | Deactivated

record CertificateData =
  recipientName :: string
  recipientAddress :: address
  issuerAddress :: address
  issueDate :: uint256
  courseTitle :: string

record Issuer =
  name :: string
  website :: string
  status :: IssuerStatus
  registrationDate :: uint256

text \<open>The four events of the contract, and the events of the two inherited contracts.\<close>

datatype event =
    IssuerAdded address
  | IssuerRoleRevoked address
  | IssuerStatusUpdated address IssuerStatus IssuerStatus
  | CertificateIssued uint256 address address
  | RoleAdminChanged bytes32 bytes32 bytes32
  | RoleGranted bytes32 address address
  | RoleRevoked bytes32 address address
  | Transfer address address uint256
  | Approval address address uint256
  | ApprovalForAll address address bool

text \<open>
  Failures. The contract's own \<^verbatim>\<open>require\<close> strings carry the names the specification
  gives them:
  \<^item> \<open>IssuerAlreadyExists\<close>: "Certify: Issuer already exist"
  \<^item> \<open>IssuerNotFound\<close>: "Certify: Issuer does not exist"
  \<^item> \<open>IssuerDeactivated\<close>: "Certify: Issuer is permanently deactivated"
  \<^item> \<open>StatusUnchanged\<close>: "Certify: Issuer already has this status"
  \<^item> \<open>IssuerNotActive\<close>: "Certify: Issuer is not active"
  \<^item> \<open>CredentialNotFound\<close>: "Certify: Certificate does not exist"
  \<^item> \<open>TransferForbidden\<close>: "Soulbound: This token is non-transferable."
  \<^item> \<open>Unauthorized account role\<close>: \<^verbatim>\<open>AccessControlUnauthorizedAccount(account, role)\<close>
  The others are the custom errors of the inherited contracts; \<open>ForwardedRevert\<close> is
  the revert data of a recipient, which the receiver check passes on unchanged; and
  \<open>ArithmeticOverflow\<close> is \<^verbatim>\<open>Panic(0x11)\<close> of checked arithmetic.
\<close>

datatype error =
    Unauthorized address bytes32
  | AccessControlBadConfirmation
  | IssuerAlreadyExists
  | IssuerNotFound
  | IssuerDeactivated
  | StatusUnchanged
  | IssuerNotActive
  | CredentialNotFound
  | TransferForbidden
  | ERC721InvalidReceiver address
  | ERC721InvalidSender address
  | ERC721NonexistentToken uint256
  | ERC721InsufficientApproval address uint256
  | ERC721IncorrectOwner address uint256 address
  | ERC721InvalidApprover address
  | ERC721InvalidOperator address
  | ForwardedRevert "8 word list"
  | ArithmeticOverflow

text \<open>
  Storage: \<open>roles\<close> and \<open>adminRole\<close> are \<^verbatim>\<open>_roles[role].hasRole\<close> and
  \<^verbatim>\<open>_roles[role].adminRole\<close> of AccessControl; \<open>owners\<close>, \<open>balances\<close>,
  \<open>tokenApprovals\<close> and \<open>operatorApprovals\<close> are the private mappings of ERC721;
  \<open>issuers\<close>, \<open>certificateDetails\<close> and \<open>nextTokenId\<close> are lines 28 to 30 of the
  contract. Mappings are total, as in Solidity. \<open>events\<close> is the log, oldest first.
\<close>

record state =
  roles :: "bytes32 \<Rightarrow> address \<Rightarrow> bool"
  adminRole :: "bytes32 \<Rightarrow> bytes32"
  owners :: "uint256 \<Rightarrow> address"
  balances :: "address \<Rightarrow> uint256"
  tokenApprovals :: "uint256 \<Rightarrow> address"
  operatorApprovals :: "address \<Rightarrow> address \<Rightarrow> bool"
  issuers :: "address \<Rightarrow> Issuer"
  certificateDetails :: "uint256 \<Rightarrow> CertificateData"
  nextTokenId :: uint256
  events :: "event list"

text \<open>The state-changing external functions of the deployed contract. The two overloads
  of \<^verbatim>\<open>safeTransferFrom\<close> differ in the bytes handed to the recipient only.\<close>

datatype call =
    AddIssuer address string string
  | UpdateIssuerStatus address IssuerStatus
  | IssueCertificate address string string
  | GrantRole bytes32 address
  | RevokeRole bytes32 address
  | RenounceRole bytes32 address
  | Approve address uint256
  | SetApprovalForAll address bool
  | TransferFrom address address uint256
  | SafeTransferFrom address address uint256

text \<open>
  What the recipient of a safe mint or safe transfer does with its
  \<^verbatim>\<open>onERC721Received\<close>: it returns the selector, returns something else, reverts without
  data, or reverts with data.
\<close>

datatype receiver_answer =
    ReturnsSelector
  | ReturnsOther
  | RevertsWithout
  | RevertsWith "8 word list"

text \<open>
  What a call sees of its environment: \<^verbatim>\<open>msg.sender\<close>, \<^verbatim>\<open>block.timestamp\<close>, and the
  recipient of its receiver check, should the call make one: whether the recipient has
  code (an account without code is not asked), the calls the recipient makes into the
  contract before it answers, each with an environment of its own, and its answer. A
  call of the recipient that fails reverts by itself and the recipient goes on; a
  recipient that lets the failure through is one that reverts with that data.
\<close>

datatype env =
  Env (msg_sender: address) (block_timestamp: uint256) (receiver_has_code: bool)
      (receiver_calls: "(env \<times> call) list") (receiver_answer: receiver_answer)

definition DEFAULT_ADMIN_ROLE :: bytes32 where
  "DEFAULT_ADMIN_ROLE = 0"

text \<open>\<^verbatim>\<open>keccak256("ADMIN_ROLE")\<close> and \<^verbatim>\<open>keccak256("ISSUER_ROLE")\<close>.\<close>

definition ADMIN_ROLE :: bytes32 where
  "ADMIN_ROLE = 0xa49807205ce4d355092ef5a8a18f56e8913cf4a201fbe287825b095693c21775"

definition ISSUER_ROLE :: bytes32 where
  "ISSUER_ROLE = 0x114e74f6ea3bd819998f78687bfcb11b140da08e9b7d222fa9c1f1ba1f2aa122"

subsection \<open>AccessControl\<close>

text \<open>
  The contract inherits OpenZeppelin's AccessControl (import at line 5), whose source is
  not in the repository. It is the Capability Registry of section 4.1 of the
  specification: \<open>hasRole\<close>, \<open>grant\<close>, \<open>revoke\<close>, one granting role for each role,
  and \<open>Unauthorized\<close> for a caller who does not hold it. Each definition below follows
  the library function it names.
\<close>

text \<open>Modelled from the spec: \<open>hasRole(identity, role)\<close> of section 4.1; \<^verbatim>\<open>AccessControl.hasRole\<close>.\<close>

definition hasRole :: "state \<Rightarrow> bytes32 \<Rightarrow> address \<Rightarrow> bool" where
  "hasRole s role account = roles s role account"

text \<open>Modelled from the spec: the granting role of a role (section 4.1); \<^verbatim>\<open>AccessControl.getRoleAdmin\<close>.\<close>

definition getRoleAdmin :: "state \<Rightarrow> bytes32 \<Rightarrow> bytes32" where
  "getRoleAdmin s role = adminRole s role"

text \<open>Modelled from the spec: \<open>Unauthorized\<close> for a caller without the role (section 4.1);
  \<^verbatim>\<open>AccessControl._checkRole\<close>. The modifier \<^verbatim>\<open>onlyRole(role)\<close> is
  \<open>checkRole s role (msg_sender e)\<close>.\<close>

definition checkRole :: "state \<Rightarrow> bytes32 \<Rightarrow> address \<Rightarrow> error + unit" where
  "checkRole s role account =
     (if \<not> hasRole s role account then Inl (Unauthorized account role) else Inr ())"

text \<open>Modelled from the spec: the granting role of a role is set at initialisation (section 4.1);
  \<^verbatim>\<open>AccessControl._setRoleAdmin\<close>.\<close>

definition setRoleAdmin :: "bytes32 \<Rightarrow> bytes32 \<Rightarrow> state \<Rightarrow> state" where
  "setRoleAdmin role newAdmin s =
     (let previousAdminRole = getRoleAdmin s role
      in s\<lparr>adminRole := (adminRole s)(role := newAdmin),
           events := events s @ [RoleAdminChanged role previousAdminRole newAdmin]\<rparr>)"

text \<open>Modelled from the spec: the mutation of \<open>grant\<close> (section 4.1);
  \<^verbatim>\<open>AccessControl._grantRole\<close>, whose boolean result no caller in the contract reads.\<close>

definition grantRole_internal :: "env \<Rightarrow> bytes32 \<Rightarrow> address \<Rightarrow> state \<Rightarrow> state" where
  "grantRole_internal e role account s =
     (if \<not> hasRole s role account
      then s\<lparr>roles := (roles s)(role := (roles s role)(account := True)),
             events := events s @ [RoleGranted role account (msg_sender e)]\<rparr>
      else s)"

text \<open>Modelled from the spec: the mutation of \<open>revoke\<close> (section 4.1);
  \<^verbatim>\<open>AccessControl._revokeRole\<close>, whose boolean result no caller in the contract reads.\<close>

definition revokeRole_internal :: "env \<Rightarrow> bytes32 \<Rightarrow> address \<Rightarrow> state \<Rightarrow> state" where
  "revokeRole_internal e role account s =
     (if hasRole s role account
      then s\<lparr>roles := (roles s)(role := (roles s role)(account := False)),
             events := events s @ [RoleRevoked role account (msg_sender e)]\<rparr>
      else s)"

text \<open>Modelled from the spec: \<open>grant(role, identity)\<close> of sections 4.1 and 6, open to a holder of the
  role's granting role; \<^verbatim>\<open>AccessControl.grantRole\<close>.\<close>

definition grantRole :: "env \<Rightarrow> bytes32 \<Rightarrow> address \<Rightarrow> state \<Rightarrow> error + state" where
  "grantRole e role account s =
     (case checkRole s (getRoleAdmin s role) (msg_sender e) of
        Inl err \<Rightarrow> Inl err
      | Inr _ \<Rightarrow> Inr (grantRole_internal e role account s))"

text \<open>Modelled from the spec: \<open>revoke(role, identity)\<close> of sections 4.1 and 6, open to a holder of
  the role's granting role; \<^verbatim>\<open>AccessControl.revokeRole\<close>.\<close>

definition revokeRole :: "env \<Rightarrow> bytes32 \<Rightarrow> address \<Rightarrow> state \<Rightarrow> error + state" where
  "revokeRole e role account s =
     (case checkRole s (getRoleAdmin s role) (msg_sender e) of
        Inl err \<Rightarrow> Inl err
      | Inr _ \<Rightarrow> Inr (revokeRole_internal e role account s))"

text \<open>Modelled from the spec: not described there; \<^verbatim>\<open>AccessControl.renounceRole\<close> of
  the inherited library, by which a caller gives up a role of its own.\<close>

definition renounceRole :: "env \<Rightarrow> bytes32 \<Rightarrow> address \<Rightarrow> state \<Rightarrow> error + state" where
  "renounceRole e role callerConfirmation s =
     (if callerConfirmation \<noteq> msg_sender e then Inl AccessControlBadConfirmation
      else Inr (revokeRole_internal e role callerConfirmation s))"

subsection \<open>ERC721\<close>

text \<open>
  The contract inherits OpenZeppelin's ERC721 (import at line 4), whose source is not in
  the repository. Of it the specification names the single ownership-mutation path that
  the guard of section 4.4 wraps and the "no owner" sentinel, which is the zero address.
  Each definition below follows the library function it names, with the library's
  unchecked balance arithmetic.
\<close>

text \<open>Modelled from the spec: the recorded owner, zero for "no owner" (section 4.4);
  \<^verbatim>\<open>ERC721._ownerOf\<close>.\<close>

definition ownerOf_internal :: "state \<Rightarrow> uint256 \<Rightarrow> address" where
  "ownerOf_internal s tokenId = owners s tokenId"

text \<open>Modelled from the spec: not described there; \<^verbatim>\<open>ERC721._getApproved\<close> of the
  inherited library, kept so that every path to the owner table is in the model.\<close>

definition getApproved_internal :: "state \<Rightarrow> uint256 \<Rightarrow> address" where
  "getApproved_internal s tokenId = tokenApprovals s tokenId"

text \<open>Modelled from the spec: not described there; \<^verbatim>\<open>ERC721.isApprovedForAll\<close> of the
  inherited library, kept so that every path to the owner table is in the model.\<close>

definition isApprovedForAll :: "state \<Rightarrow> address \<Rightarrow> address \<Rightarrow> bool" where
  "isApprovedForAll s owner operator = operatorApprovals s owner operator"

text \<open>Modelled from the spec: not described there; \<^verbatim>\<open>ERC721._isAuthorized\<close> of the
  inherited library, kept so that every path to the owner table is in the model.\<close>

definition isAuthorized :: "state \<Rightarrow> address \<Rightarrow> address \<Rightarrow> uint256 \<Rightarrow> bool" where
  "isAuthorized s owner spender tokenId =
     (spender \<noteq> 0 \<and>
      (owner = spender \<or> isApprovedForAll s owner spender
       \<or> getApproved_internal s tokenId = spender))"

text \<open>Modelled from the spec: not described there; \<^verbatim>\<open>ERC721._checkAuthorized\<close> of the
  inherited library, kept so that every path to the owner table is in the model.\<close>

definition checkAuthorized :: "state \<Rightarrow> address \<Rightarrow> address \<Rightarrow> uint256 \<Rightarrow> error + unit" where
  "checkAuthorized s owner spender tokenId =
     (if \<not> isAuthorized s owner spender tokenId
      then (if owner = 0 then Inl (ERC721NonexistentToken tokenId)
            else Inl (ERC721InsufficientApproval spender tokenId))
      else Inr ())"

text \<open>Modelled from the spec: not described there; \<^verbatim>\<open>ERC721._requireOwned\<close> of the
  inherited library, kept so that every path to the owner table is in the model.\<close>

definition requireOwned :: "state \<Rightarrow> uint256 \<Rightarrow> error + address" where
  "requireOwned s tokenId =
     (let owner = ownerOf_internal s tokenId
      in if owner = 0 then Inl (ERC721NonexistentToken tokenId) else Inr owner)"

text \<open>Modelled from the spec: not described there; \<^verbatim>\<open>ERC721._approve\<close> with its four arguments of the
  inherited library, kept so that every path to the owner table is in the model.\<close>

definition approve_internal ::
  "address \<Rightarrow> uint256 \<Rightarrow> address \<Rightarrow> bool \<Rightarrow> state \<Rightarrow> error + state" where
  "approve_internal to tokenId auth emitEvent s =
     (if emitEvent \<or> auth \<noteq> 0
      then (case requireOwned s tokenId of
              Inl err \<Rightarrow> Inl err
            | Inr owner \<Rightarrow>
                if auth \<noteq> 0 \<and> owner \<noteq> auth \<and> \<not> isApprovedForAll s owner auth
                then Inl (ERC721InvalidApprover auth)
                else Inr (s\<lparr>tokenApprovals := (tokenApprovals s)(tokenId := to),
                            events := events s @
                              (if emitEvent then [Approval owner to tokenId] else [])\<rparr>))
      else Inr (s\<lparr>tokenApprovals := (tokenApprovals s)(tokenId := to)\<rparr>))"

text \<open>Modelled from the spec: the ownership-mutation path that the guard wraps (section 4.4);
  \<^verbatim>\<open>ERC721._update\<close>, which the contract reaches as \<^verbatim>\<open>super._update\<close>. It returns the
  previous owner.\<close>

definition super_update ::
  "address \<Rightarrow> uint256 \<Rightarrow> address \<Rightarrow> state \<Rightarrow> error + (address \<times> state)" where
  "super_update to tokenId auth s =
     (let from = ownerOf_internal s tokenId
      in case (if auth \<noteq> 0 then checkAuthorized s from auth tokenId else Inr ()) of
           Inl err \<Rightarrow> Inl err
         | Inr _ \<Rightarrow>
            (case (if from \<noteq> 0
                   then (case approve_internal 0 tokenId 0 False s of
                           Inl err \<Rightarrow> Inl err
                         | Inr s1 \<Rightarrow>
                             Inr (s1\<lparr>balances := (balances s1)(from := balances s1 from - 1)\<rparr>))
                   else Inr s) of
               Inl err \<Rightarrow> Inl err
             | Inr s2 \<Rightarrow>
                 (let s3 = (if to \<noteq> 0
                            then s2\<lparr>balances := (balances s2)(to := balances s2 to + 1)\<rparr>
                            else s2)
                  in Inr (from, s3\<lparr>owners := (owners s3)(tokenId := to),
                                    events := events s3 @ [Transfer from to tokenId]\<rparr>))))"

subsection \<open>The contract\<close>

text \<open>Lines 45 to 49 (the token name and symbol given to the ERC721 constructor are not
  modelled). Storage starts zeroed: no role, every role's admin role
  \<open>DEFAULT_ADMIN_ROLE\<close>, no owner, and in both tables the default record.\<close>

definition default_Issuer :: Issuer where
  "default_Issuer = \<lparr>name = [], website = [], status = Active, registrationDate = 0\<rparr>"

definition default_CertificateData :: CertificateData where
  "default_CertificateData =
     \<lparr>recipientName = [], recipientAddress = 0, issuerAddress = 0, issueDate = 0,
      courseTitle = []\<rparr>"

definition empty_storage :: state where
  "empty_storage =
     \<lparr>roles = (\<lambda>_ _. False), adminRole = (\<lambda>_. 0), owners = (\<lambda>_. 0), balances = (\<lambda>_. 0),
      tokenApprovals = (\<lambda>_. 0), operatorApprovals = (\<lambda>_ _. False),
      issuers = (\<lambda>_. default_Issuer), certificateDetails = (\<lambda>_. default_CertificateData),
      nextTokenId = 0, events = []\<rparr>"

definition constructor :: "env \<Rightarrow> state" where
  "constructor e =
     setRoleAdmin ISSUER_ROLE ADMIN_ROLE
       (grantRole_internal e ADMIN_ROLE (msg_sender e)
          (grantRole_internal e DEFAULT_ADMIN_ROLE (msg_sender e) empty_storage))"

text \<open>Lines 206 to 212 and 219 to 225.\<close>

definition issuerExists :: "state \<Rightarrow> address \<Rightarrow> bool" where
  "issuerExists s issuerAddr = (registrationDate (issuers s issuerAddr) \<noteq> 0)"

definition certificateExists :: "state \<Rightarrow> uint256 \<Rightarrow> bool" where
  "certificateExists s tokenId = (issueDate (certificateDetails s tokenId) \<noteq> 0)"

text \<open>Lines 75 to 92.\<close>

definition addIssuer :: "env \<Rightarrow> address \<Rightarrow> string \<Rightarrow> string \<Rightarrow> state \<Rightarrow> error + state" where
  "addIssuer e issuerAddr nm web s =
     (case checkRole s ADMIN_ROLE (msg_sender e) of
        Inl err \<Rightarrow> Inl err
      | Inr _ \<Rightarrow>
          if \<not> \<not> issuerExists s issuerAddr then Inl IssuerAlreadyExists
          else
            (let s1 = grantRole_internal e ISSUER_ROLE issuerAddr s;
                 s2 = s1\<lparr>issuers := (issuers s1)(issuerAddr :=
                        \<lparr>name = nm, website = web, status = Active,
                         registrationDate = block_timestamp e\<rparr>)\<rparr>
             in Inr (s2\<lparr>events := events s2 @ [IssuerAdded issuerAddr]\<rparr>)))"

text \<open>Lines 101 to 124. The call of the public \<^verbatim>\<open>revokeRole\<close> checks the caller
  against the admin role of \<open>ISSUER_ROLE\<close> once more.\<close>

definition updateIssuerStatus :: "env \<Rightarrow> address \<Rightarrow> IssuerStatus \<Rightarrow> state \<Rightarrow> error + state" where
  "updateIssuerStatus e issuerAddr newStatus s =
     (case checkRole s ADMIN_ROLE (msg_sender e) of
        Inl err \<Rightarrow> Inl err
      | Inr _ \<Rightarrow>
          if \<not> issuerExists s issuerAddr then Inl IssuerNotFound
          else if \<not> status (issuers s issuerAddr) \<noteq> Deactivated then Inl IssuerDeactivated
          else if \<not> status (issuers s issuerAddr) \<noteq> newStatus then Inl StatusUnchanged
          else
            (let currentStatus = status (issuers s issuerAddr);
                 s1 = s\<lparr>issuers := (issuers s)(issuerAddr :=
                        (issuers s issuerAddr)\<lparr>status := newStatus\<rparr>)\<rparr>
             in case (if newStatus = Deactivated
                      then (case revokeRole e ISSUER_ROLE issuerAddr s1 of
                              Inl err \<Rightarrow> Inl err
                            | Inr s2 \<Rightarrow>
                                Inr (s2\<lparr>events := events s2 @ [IssuerRoleRevoked issuerAddr]\<rparr>))
                      else Inr s1) of
                  Inl err \<Rightarrow> Inl err
                | Inr s3 \<Rightarrow>
                    Inr (s3\<lparr>events := events s3 @
                              [IssuerStatusUpdated issuerAddr currentStatus newStatus]\<rparr>)))"

text \<open>Lines 132 to 142: the override of \<^verbatim>\<open>_update\<close>.\<close>

definition update ::
  "address \<Rightarrow> uint256 \<Rightarrow> address \<Rightarrow> state \<Rightarrow> error + (address \<times> state)" where
  "update to tokenId auth s =
     (if \<not> ownerOf_internal s tokenId = 0 then Inl TransferForbidden
      else super_update to tokenId auth s)"

text \<open>
  The functions of the inherited ERC721 that reach the owner table, each through the
  override \<open>update\<close>, and its two approval functions.
\<close>

text \<open>Modelled from the spec: the ownership assignment of an issuance (sections 4.3 and 4.4);
  \<^verbatim>\<open>ERC721._mint\<close>.\<close>

definition mint :: "address \<Rightarrow> uint256 \<Rightarrow> state \<Rightarrow> error + state" where
  "mint to tokenId s =
     (if to = 0 then Inl (ERC721InvalidReceiver 0)
      else case update to tokenId 0 s of
             Inl err \<Rightarrow> Inl err
           | Inr (previousOwner, s') \<Rightarrow>
               if previousOwner \<noteq> 0 then Inl (ERC721InvalidSender 0) else Inr s')"

text \<open>Modelled from the spec: not described there; the receiver check of the inherited
  library (\<^verbatim>\<open>checkOnERC721Received\<close>), the one call to the outside. \<open>reenter\<close> is what
  the calls of the recipient into the contract make of the storage; they run on the
  storage as the caller has written it so far. A recipient without code is not called.
  Any answer but the selector fails the check, with the recipient's revert data when there
  is some.\<close>

definition checkOnERC721Received ::
  "(state \<Rightarrow> state) \<Rightarrow> env \<Rightarrow> address \<Rightarrow> state \<Rightarrow> error + state" where
  "checkOnERC721Received reenter e to s =
     (if receiver_has_code e
      then (case receiver_answer e of
              ReturnsSelector \<Rightarrow> Inr (reenter s)
            | ReturnsOther \<Rightarrow> Inl (ERC721InvalidReceiver to)
            | RevertsWithout \<Rightarrow> Inl (ERC721InvalidReceiver to)
            | RevertsWith reason \<Rightarrow> Inl (ForwardedRevert reason))
      else Inr s)"

text \<open>Modelled from the spec: the ownership assignment of an issuance (sections 4.3 and 4.4);
  \<^verbatim>\<open>ERC721._safeMint\<close>: the mint, then the receiver check.\<close>

definition safeMint_with ::
  "(state \<Rightarrow> state) \<Rightarrow> env \<Rightarrow> address \<Rightarrow> uint256 \<Rightarrow> state \<Rightarrow> error + state" where
  "safeMint_with reenter e to tokenId s =
     (case mint to tokenId s of
        Inl err \<Rightarrow> Inl err
      | Inr s' \<Rightarrow> checkOnERC721Received reenter e to s')"

text \<open>Modelled from the spec: not described there; \<^verbatim>\<open>ERC721.approve\<close> of the
  inherited library, kept so that every path to the owner table is in the model.\<close>

definition approve :: "env \<Rightarrow> address \<Rightarrow> uint256 \<Rightarrow> state \<Rightarrow> error + state" where
  "approve e to tokenId s = approve_internal to tokenId (msg_sender e) True s"

text \<open>Modelled from the spec: not described there; \<^verbatim>\<open>ERC721.setApprovalForAll\<close> of the
  inherited library, kept so that every path to the owner table is in the model.\<close>

definition setApprovalForAll :: "env \<Rightarrow> address \<Rightarrow> bool \<Rightarrow> state \<Rightarrow> error + state" where
  "setApprovalForAll e operator approved s =
     (if operator = 0 then Inl (ERC721InvalidOperator operator)
      else Inr (s\<lparr>operatorApprovals := (operatorApprovals s)(msg_sender e :=
                    (operatorApprovals s (msg_sender e))(operator := approved)),
                  events := events s @ [ApprovalForAll (msg_sender e) operator approved]\<rparr>))"

text \<open>Modelled from the spec: an attempt to reassign the owner from outside (section 4.4);
  \<^verbatim>\<open>ERC721.transferFrom\<close>.\<close>

definition transferFrom :: "env \<Rightarrow> address \<Rightarrow> address \<Rightarrow> uint256 \<Rightarrow> state \<Rightarrow> error + state" where
  "transferFrom e from to tokenId s =
     (if to = 0 then Inl (ERC721InvalidReceiver 0)
      else case update to tokenId (msg_sender e) s of
             Inl err \<Rightarrow> Inl err
           | Inr (previousOwner, s') \<Rightarrow>
               if previousOwner \<noteq> from
               then Inl (ERC721IncorrectOwner from tokenId previousOwner)
               else Inr s')"

text \<open>Modelled from the spec: an attempt to reassign the owner from outside (section 4.4);
  \<^verbatim>\<open>ERC721.safeTransferFrom\<close>: the transfer, then the receiver check.\<close>

definition safeTransferFrom_with ::
  "(state \<Rightarrow> state) \<Rightarrow> env \<Rightarrow> address \<Rightarrow> address \<Rightarrow> uint256 \<Rightarrow> state \<Rightarrow> error + state" where
  "safeTransferFrom_with reenter e from to tokenId s =
     (case transferFrom e from to tokenId s of
        Inl err \<Rightarrow> Inl err
      | Inr s' \<Rightarrow> checkOnERC721Received reenter e to s')"

text \<open>Lines 162 to 171: the counter and the record as \<^verbatim>\<open>issueCertificate\<close> writes them
  before it mints.\<close>

definition issue_writes :: "env \<Rightarrow> address \<Rightarrow> string \<Rightarrow> string \<Rightarrow> state \<Rightarrow> state" where
  "issue_writes e recipient rname title s =
     (let tokenId = nextTokenId s;
          s1 = s\<lparr>nextTokenId := nextTokenId s + 1\<rparr>
      in s1\<lparr>certificateDetails := (certificateDetails s1)(tokenId :=
             \<lparr>recipientName = rname, recipientAddress = recipient,
              issuerAddress = msg_sender e, issueDate = block_timestamp e,
              courseTitle = title\<rparr>)\<rparr>)"

text \<open>Lines 152 to 176. \<^verbatim>\<open>_nextTokenId++\<close> is checked arithmetic. The recipient is
  called, inside \<^verbatim>\<open>_safeMint\<close>, after the counter, the record and the owner are written
  and before \<open>CertificateIssued\<close> is emitted; \<open>reenter\<close> is what its calls into the
  contract make of the storage.\<close>

definition issueCertificate_with ::
  "(state \<Rightarrow> state) \<Rightarrow> env \<Rightarrow> address \<Rightarrow> string \<Rightarrow> string \<Rightarrow> state \<Rightarrow> error + state" where
  "issueCertificate_with reenter e recipient rname title s =
     (case checkRole s ISSUER_ROLE (msg_sender e) of
        Inl err \<Rightarrow> Inl err
      | Inr _ \<Rightarrow>
          if \<not> status (issuers s (msg_sender e)) = Active then Inl IssuerNotActive
          else
            (let tokenId = nextTokenId s
             in if nextTokenId s = - 1 then Inl ArithmeticOverflow
                else
                  (case safeMint_with reenter e recipient tokenId
                          (issue_writes e recipient rname title s) of
                     Inl err \<Rightarrow> Inl err
                   | Inr s3 \<Rightarrow>
                       Inr (s3\<lparr>events := events s3 @
                                 [CertificateIssued tokenId (msg_sender e) recipient]\<rparr>))))"

text \<open>Lines 187 to 197, and the getter that \<^verbatim>\<open>public\<close> gives the mapping of line 28:
  a read of a total mapping, which has no failing path.\<close>

definition getCertificateDetails :: "state \<Rightarrow> uint256 \<Rightarrow> error + CertificateData" where
  "getCertificateDetails s tokenId =
     (if \<not> certificateExists s tokenId then Inl CredentialNotFound
      else Inr (certificateDetails s tokenId))"

definition issuers_getter :: "state \<Rightarrow> address \<Rightarrow> error + Issuer" where
  "issuers_getter s issuerAddr = Inr (issuers s issuerAddr)"

subsection \<open>Calls and executions\<close>

text \<open>
  One external call, and a sequence of external calls, one after the other. A call that
  fails reverts, so the sequence goes on from the storage before it. The calls of a
  recipient are such a sequence, run on the storage of the moment of the receiver check;
  the recursion ends because the calls of a recipient are part of the environment of the
  call that asks it.
\<close>

function (sequential) dispatch :: "env \<Rightarrow> call \<Rightarrow> state \<Rightarrow> error + state"
  and run :: "state \<Rightarrow> (env \<times> call) list \<Rightarrow> state" where
  "dispatch e (AddIssuer a nm web) s = addIssuer e a nm web s"
| "dispatch e (UpdateIssuerStatus a st) s = updateIssuerStatus e a st s"
| "dispatch e (IssueCertificate r rname title) s =
     issueCertificate_with (\<lambda>s'. run s' (receiver_calls e)) e r rname title s"
| "dispatch e (GrantRole role a) s = grantRole e role a s"
| "dispatch e (RevokeRole role a) s = revokeRole e role a s"
| "dispatch e (RenounceRole role a) s = renounceRole e role a s"
| "dispatch e (Approve to tokenId) s = approve e to tokenId s"
| "dispatch e (SetApprovalForAll operator approved) s = setApprovalForAll e operator approved s"
| "dispatch e (TransferFrom from to tokenId) s = transferFrom e from to tokenId s"
| "dispatch e (SafeTransferFrom from to tokenId) s =
     safeTransferFrom_with (\<lambda>s'. run s' (receiver_calls e)) e from to tokenId s"
| "run s [] = s"
| "run s ((e, c) # txs) = run (case dispatch e c s of Inl err \<Rightarrow> s | Inr s' \<Rightarrow> s') txs"
  by pat_completeness auto

termination
proof -
  have calls: "size_list (size_prod size (\<lambda>_. 0)) (receiver_calls e) < size e" for e
    by (cases e) simp
  show ?thesis
    by (relation "measure (\<lambda>x. case x of
                      Inl (e, c, s) \<Rightarrow> 2 * size e + 1
                    | Inr (s, txs) \<Rightarrow> 2 * size_list (size_prod size (\<lambda>_. 0)) txs)")
       (auto simp: less_Suc_eq_le intro: less_imp_le [OF calls])
qed

text \<open>The functions of the contract that call a recipient, with the recipient of the
  environment.\<close>

definition issueCertificate ::
  "env \<Rightarrow> address \<Rightarrow> string \<Rightarrow> string \<Rightarrow> state \<Rightarrow> error + state" where
  "issueCertificate e recipient rname title s =
     issueCertificate_with (\<lambda>s'. run s' (receiver_calls e)) e recipient rname title s"

definition safeTransferFrom ::
  "env \<Rightarrow> address \<Rightarrow> address \<Rightarrow> uint256 \<Rightarrow> state \<Rightarrow> error + state" where
  "safeTransferFrom e from to tokenId s =
     safeTransferFrom_with (\<lambda>s'. run s' (receiver_calls e)) e from to tokenId s"

text \<open>One external call: the outcome and the storage afterwards. A failing body
  reverts, so the storage (with its log) is the one before the call.\<close>

definition transact :: "env \<Rightarrow> call \<Rightarrow> state \<Rightarrow> (error + unit) \<times> state" where
  "transact e c s =
     (case dispatch e c s of Inl err \<Rightarrow> (Inl err, s) | Inr s' \<Rightarrow> (Inr (), s'))"

text \<open>What a call does by itself: the call with a recipient that makes no calls.\<close>

fun own_effect :: "env \<Rightarrow> call \<Rightarrow> state \<Rightarrow> error + state" where
  "own_effect e (IssueCertificate r rname title) s =
     issueCertificate_with (\<lambda>s'. s') e r rname title s"
| "own_effect e (SafeTransferFrom from to tokenId) s =
     safeTransferFrom_with (\<lambda>s'. s') e from to tokenId s"
| "own_effect e c s = dispatch e c s"

text \<open>The storage on which the recipient of a call runs, when the call gets as far as
  to ask a recipient that has code.\<close>

fun receiver_entry :: "env \<Rightarrow> call \<Rightarrow> state \<Rightarrow> state option" where
  "receiver_entry e (IssueCertificate r rname title) s =
     (if receiver_has_code e
      then (case mint r (nextTokenId s) (issue_writes e r rname title s) of
              Inl err \<Rightarrow> None
            | Inr m \<Rightarrow> Some m)
      else None)"
| "receiver_entry e (SafeTransferFrom from to tokenId) s =
     (if receiver_has_code e
      then (case transferFrom e from to tokenId s of Inl err \<Rightarrow> None | Inr m \<Rightarrow> Some m)
      else None)"
| "receiver_entry e c s = None"

text \<open>The calls of a sequence that succeeded, each with the storage it began in, in the
  order in which they began: the successful calls of a recipient come after the call that
  asked the recipient and before the calls that follow it. What a failed call contains
  is reverted with it and does not count.\<close>

function (sequential) successes ::
  "state \<Rightarrow> (env \<times> call) list \<Rightarrow> (env \<times> call \<times> state) list" where
  "successes s [] = []"
| "successes s ((e, c) # txs) =
     (case dispatch e c s of
        Inl err \<Rightarrow> successes s txs
      | Inr s' \<Rightarrow>
          (e, c, s)
          # (case receiver_entry e c s of
               None \<Rightarrow> []
             | Some m \<Rightarrow> successes m (receiver_calls e))
          @ successes s' txs)"
  by pat_completeness auto

termination
proof -
  have calls: "size_list (size_prod size (\<lambda>_. 0)) (receiver_calls e) < size e" for e
    by (cases e) simp
  show ?thesis
    by (relation "measure (\<lambda>(s, txs). size_list (size_prod size (\<lambda>_. 0)) txs)")
       (auto intro: trans_less_add1 [OF calls] less_SucI)
qed

text \<open>The successful issuances of a sequence, in the order in which they began, each
  with the storage it began in; the counter of that storage is the identifier the call
  assigns. The identifiers of the \<open>CertificateIssued\<close> events of a log, oldest first.\<close>

fun is_issue :: "call \<Rightarrow> bool" where
  "is_issue (IssueCertificate r rname title) = True"
| "is_issue _ = False"

definition issuances :: "state \<Rightarrow> (env \<times> call) list \<Rightarrow> (env \<times> call \<times> state) list" where
  "issuances s txs = filter (\<lambda>(e, c, s1). is_issue c) (successes s txs)"

fun logged_ids :: "event list \<Rightarrow> uint256 list" where
  "logged_ids [] = []"
| "logged_ids (CertificateIssued tokenId issuer recipient # evs) = tokenId # logged_ids evs"
| "logged_ids (ev # evs) = logged_ids evs"

text \<open>Who minted an identifier in a sequence of calls: the sender of the successful
  issuance that assigned it. Whether a successful \<open>addIssuer\<close> of the sequence named
  an identity.\<close>

definition minter :: "state \<Rightarrow> (env \<times> call) list \<Rightarrow> uint256 \<Rightarrow> address option" where
  "minter s txs tokenId =
     map_option (\<lambda>(e, c, s1). msg_sender e)
       (find (\<lambda>(e, c, s1). nextTokenId s1 = tokenId) (issuances s txs))"

fun adds :: "address \<Rightarrow> call \<Rightarrow> bool" where
  "adds a (AddIssuer b nm web) = (b = a)"
| "adds a _ = False"

definition added :: "state \<Rightarrow> (env \<times> call) list \<Rightarrow> address \<Rightarrow> bool" where
  "added s txs a = list_ex (\<lambda>(e, c, s1). adds a c) (successes s txs)"

text \<open>The invariant of the ledger: below the counter every identifier has an owner,
  the recipient of its record; from the counter on every record is the default one.\<close>

definition ledger_ok :: "state \<Rightarrow> bool" where
  "ledger_ok s \<longleftrightarrow>
     (\<forall>tokenId. unat tokenId < unat (nextTokenId s) \<longrightarrow>
        owners s tokenId \<noteq> 0
        \<and> owners s tokenId = recipientAddress (certificateDetails s tokenId))
     \<and> (\<forall>tokenId. unat (nextTokenId s) \<le> unat tokenId \<longrightarrow>
          certificateDetails s tokenId = default_CertificateData)"

subsection \<open>The scenario of the specification\<close>

text \<open>Section 8 of the specification: admin A deploys and adds issuer I, I issues
  "Algorithms 101" to recipient R, A suspends I, then A deactivates I. The calls are
  used to run the definitions at concrete inputs. \<open>call_by\<close> is a call whose recipient,
  if it asks one, is an account without code.\<close>

definition admin_A :: address where
  "admin_A = 0xA"

definition issuer_I :: address where
  "issuer_I = 0x1"

definition recipient_R :: address where
  "recipient_R = 0x2"

definition call_by :: "address \<Rightarrow> uint256 \<Rightarrow> env" where
  "call_by a t = Env a t False [] ReturnsSelector"

definition deployed :: state where
  "deployed = constructor (call_by admin_A 100)"

definition tx_add :: "env \<times> call" where
  "tx_add = (call_by admin_A 101, AddIssuer issuer_I ''Uni'' ''uni.example'')"

definition tx_issue :: "env \<times> call" where
  "tx_issue = (call_by issuer_I 102, IssueCertificate recipient_R ''Rosa'' ''Algorithms 101'')"

definition tx_suspend :: "env \<times> call" where
  "tx_suspend = (call_by admin_A 103, UpdateIssuerStatus issuer_I Suspended)"

definition tx_deactivate :: "env \<times> call" where
  "tx_deactivate = (call_by admin_A 104, UpdateIssuerStatus issuer_I Deactivated)"

text \<open>A second issuer J, added and issuing after I.\<close>

definition issuer_J :: address where
  "issuer_J = 0x3"

definition tx_add_J :: "env \<times> call" where
  "tx_add_J = (call_by admin_A 105, AddIssuer issuer_J ''Academy'' ''academy.example'')"

definition tx_issue_J :: "env \<times> call" where
  "tx_issue_J = (call_by issuer_J 106, IssueCertificate recipient_R ''Rosa'' ''Logic 1'')"

text \<open>An identity K that an admin gives the issuer role directly, without adding
  it.\<close>

definition issuer_K :: address where
  "issuer_K = 0x4"

definition tx_grant_K :: "env \<times> call" where
  "tx_grant_K = (call_by admin_A 107, GrantRole ISSUER_ROLE issuer_K)"

definition tx_issue_K :: "env \<times> call" where
  "tx_issue_K = (call_by issuer_K 108, IssueCertificate recipient_R ''Rosa'' ''Sets'')"

text \<open>
  The issuer I as a contract that issues to itself: asked by the receiver check of its
  issuance of "Algorithms 101", it issues "Logic 1" to itself before it answers with the
  selector, and answers the receiver check of that second issuance with the selector at
  once. The transfers of the credential of R: by R to the admin, and to the zero
  address.
\<close>

definition tx_issue_inner :: "env \<times> call" where
  "tx_issue_inner =
     (Env issuer_I 102 True [] ReturnsSelector, IssueCertificate issuer_I ''Uni'' ''Logic 1'')"

definition tx_issue_reentrant :: "env \<times> call" where
  "tx_issue_reentrant =
     (Env issuer_I 102 True [tx_issue_inner] ReturnsSelector,
      IssueCertificate issuer_I ''Uni'' ''Algorithms 101'')"

definition tx_transfer :: "env \<times> call" where
  "tx_transfer = (call_by recipient_R 105, TransferFrom recipient_R admin_A 0)"

definition tx_transfer_zero :: "env \<times> call" where
  "tx_transfer_zero = (call_by recipient_R 105, TransferFrom recipient_R 0 0)"

text \<open>The admin gives I the issuer role again.\<close>

definition tx_regrant :: "env \<times> call" where
  "tx_regrant = (call_by admin_A 105, GrantRole ISSUER_ROLE issuer_I)"

section \<open>Evaluation\<close>

text \<open>The equations that evaluate a concrete execution. The role identifiers and the
  parties of the scenario stay folded; that they differ is all an execution asks of
  them.\<close>

lemma role_neq:
  "ADMIN_ROLE \<noteq> ISSUER_ROLE" "ISSUER_ROLE \<noteq> ADMIN_ROLE"
  "ADMIN_ROLE \<noteq> DEFAULT_ADMIN_ROLE" "DEFAULT_ADMIN_ROLE \<noteq> ADMIN_ROLE"
  "ISSUER_ROLE \<noteq> DEFAULT_ADMIN_ROLE" "DEFAULT_ADMIN_ROLE \<noteq> ISSUER_ROLE"
  "ADMIN_ROLE \<noteq> 0" "ISSUER_ROLE \<noteq> 0" "0 \<noteq> ADMIN_ROLE" "0 \<noteq> ISSUER_ROLE"
  by (simp_all add: ADMIN_ROLE_def ISSUER_ROLE_def DEFAULT_ADMIN_ROLE_def)

lemma party_neq:
  "admin_A \<noteq> issuer_I" "issuer_I \<noteq> admin_A"
  "admin_A \<noteq> recipient_R" "recipient_R \<noteq> admin_A"
  "admin_A \<noteq> issuer_J" "issuer_J \<noteq> admin_A"
  "admin_A \<noteq> issuer_K" "issuer_K \<noteq> admin_A"
  "issuer_I \<noteq> recipient_R" "recipient_R \<noteq> issuer_I"
  "issuer_I \<noteq> issuer_J" "issuer_J \<noteq> issuer_I"
  "issuer_I \<noteq> issuer_K" "issuer_K \<noteq> issuer_I"
  "recipient_R \<noteq> issuer_J" "issuer_J \<noteq> recipient_R"
  "recipient_R \<noteq> issuer_K" "issuer_K \<noteq> recipient_R"
  "issuer_J \<noteq> issuer_K" "issuer_K \<noteq> issuer_J"
  "admin_A \<noteq> 0" "issuer_I \<noteq> 0" "recipient_R \<noteq> 0" "issuer_J \<noteq> 0" "issuer_K \<noteq> 0"
  "0 \<noteq> admin_A" "0 \<noteq> issuer_I" "0 \<noteq> recipient_R" "0 \<noteq> issuer_J" "0 \<noteq> issuer_K"
  by (simp_all add: admin_A_def issuer_I_def recipient_R_def issuer_J_def issuer_K_def)

lemmas scenario_defs =
  call_by_def deployed_def tx_add_def tx_issue_def tx_suspend_def tx_deactivate_def
  tx_add_J_def tx_issue_J_def tx_grant_K_def tx_issue_K_def tx_regrant_def
  tx_issue_inner_def tx_issue_reentrant_def tx_transfer_def tx_transfer_zero_def
  party_neq

lemmas contract_defs =
  constructor_def empty_storage_def setRoleAdmin_def grantRole_internal_def
  revokeRole_internal_def grantRole_def revokeRole_def renounceRole_def hasRole_def
  getRoleAdmin_def checkRole_def addIssuer_def updateIssuerStatus_def issueCertificate_def
  issueCertificate_with_def issue_writes_def safeMint_with_def checkOnERC721Received_def
  mint_def update_def super_update_def ownerOf_internal_def checkAuthorized_def
  isAuthorized_def approve_internal_def requireOwned_def isApprovedForAll_def
  getApproved_internal_def transferFrom_def safeTransferFrom_def safeTransferFrom_with_def
  approve_def setApprovalForAll_def issuerExists_def certificateExists_def
  getCertificateDetails_def issuers_getter_def transact_def Let_def default_Issuer_def
  default_CertificateData_def role_neq

section \<open>What a successful call does\<close>

text \<open>Each lemma reads off, from the success of one function, the checks that passed
  and the storage that results.\<close>

lemma unat_inc: "x \<noteq> - 1 \<Longrightarrow> unat (x + 1) = Suc (unat x)" for x :: "'a::len word"
proof -
  assume "x \<noteq> - 1"
  then have "1 + x \<noteq> 0"
    by (metis add.commute add_eq_0_iff)
  then show ?thesis
    using unatSuc [of x] by (simp add: add.commute)
qed

lemma update_Inr:
  assumes "update to tokenId auth s = Inr (p, s')"
  shows "owners s tokenId = 0 \<and> p = 0 \<and>
         (auth \<noteq> 0 \<longrightarrow> isAuthorized s 0 auth tokenId) \<and>
         s' = s\<lparr>balances := (if to \<noteq> 0 then (balances s)(to := balances s to + 1) else balances s),
                owners := (owners s)(tokenId := to),
                events := events s @ [Transfer 0 to tokenId]\<rparr>"
  using assms
  by (auto simp: update_def super_update_def ownerOf_internal_def checkAuthorized_def Let_def
           split: if_splits sum.splits)

lemma mint_Inr:
  assumes "mint to tokenId s = Inr s'"
  shows "to \<noteq> 0 \<and> owners s tokenId = 0 \<and>
         s' = s\<lparr>balances := (balances s)(to := balances s to + 1),
                owners := (owners s)(tokenId := to),
                events := events s @ [Transfer 0 to tokenId]\<rparr>"
  using assms
  by (auto simp: mint_def split: if_splits sum.splits prod.splits dest!: update_Inr)

lemma transferFrom_Inr:
  assumes "transferFrom e from to tokenId s = Inr s'"
  shows "to \<noteq> 0 \<and> from = 0 \<and> owners s tokenId = 0 \<and>
         (msg_sender e \<noteq> 0 \<longrightarrow> isAuthorized s 0 (msg_sender e) tokenId) \<and>
         s' = s\<lparr>balances := (balances s)(to := balances s to + 1),
                owners := (owners s)(tokenId := to),
                events := events s @ [Transfer 0 to tokenId]\<rparr>"
  using assms
  by (auto simp: transferFrom_def split: if_splits sum.splits prod.splits dest!: update_Inr)

lemma fun_upd2_same:
  "f r a = v \<Longrightarrow> f(r := (f r)(a := v)) = f"
  by (auto simp: fun_eq_iff)

lemma addIssuer_Inr:
  assumes "addIssuer e a nm web s = Inr s'"
  shows "hasRole s ADMIN_ROLE (msg_sender e) \<and> \<not> issuerExists s a \<and>
         s' = s\<lparr>roles := (roles s)(ISSUER_ROLE := (roles s ISSUER_ROLE)(a := True)),
                issuers := (issuers s)(a := \<lparr>name = nm, website = web, status = Active,
                                             registrationDate = block_timestamp e\<rparr>),
                events := events s @
                  (if hasRole s ISSUER_ROLE a then [] else [RoleGranted ISSUER_ROLE a (msg_sender e)])
                  @ [IssuerAdded a]\<rparr>"
  using assms
  by (auto simp: addIssuer_def checkRole_def grantRole_internal_def hasRole_def Let_def
                 fun_upd2_same
           split: if_splits sum.splits)

lemma updateIssuerStatus_Inr:
  assumes "updateIssuerStatus e a st s = Inr s'"
  shows "hasRole s ADMIN_ROLE (msg_sender e) \<and> issuerExists s a \<and>
         status (issuers s a) \<noteq> Deactivated \<and> status (issuers s a) \<noteq> st \<and>
         s' = s\<lparr>roles := (if st = Deactivated
                           then (roles s)(ISSUER_ROLE := (roles s ISSUER_ROLE)(a := False))
                           else roles s),
                issuers := (issuers s)(a := (issuers s a)\<lparr>status := st\<rparr>),
                events := events s @
                  (if st = Deactivated
                   then (if hasRole s ISSUER_ROLE a then [RoleRevoked ISSUER_ROLE a (msg_sender e)] else [])
                        @ [IssuerRoleRevoked a]
                   else [])
                  @ [IssuerStatusUpdated a (status (issuers s a)) st]\<rparr>"
  using assms
  by (auto simp: updateIssuerStatus_def checkRole_def revokeRole_def revokeRole_internal_def
                 hasRole_def Let_def fun_upd2_same
           split: if_splits sum.splits)


lemma check_Inr:
  assumes "checkOnERC721Received k e to s = Inr s'"
  shows "s' = (if receiver_has_code e then k s else s)
         \<and> (receiver_has_code e \<longrightarrow> receiver_answer e = ReturnsSelector)"
  using assms
  by (auto simp: checkOnERC721Received_def split: if_splits receiver_answer.splits)

lemma issue_mint_Inr:
  assumes "mint r (nextTokenId s) (issue_writes e r rname title s) = Inr m"
  shows "r \<noteq> 0 \<and> owners s (nextTokenId s) = 0 \<and>
         m = s\<lparr>nextTokenId := nextTokenId s + 1,
                certificateDetails := (certificateDetails s)(nextTokenId s :=
                  \<lparr>recipientName = rname, recipientAddress = r, issuerAddress = msg_sender e,
                   issueDate = block_timestamp e, courseTitle = title\<rparr>),
                balances := (balances s)(r := balances s r + 1),
                owners := (owners s)(nextTokenId s := r),
                events := events s @ [Transfer 0 r (nextTokenId s)]\<rparr>"
  using mint_Inr [OF assms] by (simp add: issue_writes_def Let_def)

lemma issueCertificate_with_Inr:
  assumes "issueCertificate_with k e r rname title s = Inr s'"
  shows "hasRole s ISSUER_ROLE (msg_sender e) \<and> status (issuers s (msg_sender e)) = Active \<and>
         nextTokenId s \<noteq> - 1 \<and>
         (receiver_has_code e \<longrightarrow> receiver_answer e = ReturnsSelector) \<and>
         (\<exists>m. mint r (nextTokenId s) (issue_writes e r rname title s) = Inr m \<and>
              s' = (if receiver_has_code e then k m else m)
                     \<lparr>events := events (if receiver_has_code e then k m else m) @
                                 [CertificateIssued (nextTokenId s) (msg_sender e) r]\<rparr>)"
  using assms
  by (auto simp: issueCertificate_with_def safeMint_with_def checkRole_def Let_def
           split: if_splits sum.splits dest!: check_Inr)

lemma safeTransferFrom_with_Inr:
  assumes "safeTransferFrom_with k e frm to tokenId s = Inr s'"
  shows "(receiver_has_code e \<longrightarrow> receiver_answer e = ReturnsSelector) \<and>
         (\<exists>m. transferFrom e frm to tokenId s = Inr m \<and>
              s' = (if receiver_has_code e then k m else m))"
  using assms
  by (auto simp: safeTransferFrom_with_def split: sum.splits dest!: check_Inr)

text \<open>A call by itself: the issuance and the safe transfer with a recipient that makes
  no calls.\<close>

lemma own_issue_Inr:
  assumes "issueCertificate_with (\<lambda>s'. s') e r rname title s = Inr s'"
  shows "hasRole s ISSUER_ROLE (msg_sender e) \<and> status (issuers s (msg_sender e)) = Active \<and>
         nextTokenId s \<noteq> - 1 \<and> r \<noteq> 0 \<and> owners s (nextTokenId s) = 0 \<and>
         s' = s\<lparr>nextTokenId := nextTokenId s + 1,
                certificateDetails := (certificateDetails s)(nextTokenId s :=
                  \<lparr>recipientName = rname, recipientAddress = r, issuerAddress = msg_sender e,
                   issueDate = block_timestamp e, courseTitle = title\<rparr>),
                balances := (balances s)(r := balances s r + 1),
                owners := (owners s)(nextTokenId s := r),
                events := events s @ [Transfer 0 r (nextTokenId s),
                                      CertificateIssued (nextTokenId s) (msg_sender e) r]\<rparr>"
  using issueCertificate_with_Inr [OF assms] by (auto dest!: issue_mint_Inr)

lemma own_safeTransfer_Inr:
  assumes "safeTransferFrom_with (\<lambda>s'. s') e frm to tokenId s = Inr s'"
  shows "to \<noteq> 0 \<and> frm = 0 \<and> owners s tokenId = 0 \<and>
         (msg_sender e \<noteq> 0 \<longrightarrow> isAuthorized s 0 (msg_sender e) tokenId) \<and>
         s' = s\<lparr>balances := (balances s)(to := balances s to + 1),
                owners := (owners s)(tokenId := to),
                events := events s @ [Transfer 0 to tokenId]\<rparr>"
  using safeTransferFrom_with_Inr [OF assms] by (auto dest!: transferFrom_Inr)

section \<open>Calls within calls\<close>

text \<open>
  A successful call is what it does by itself, with the calls of its recipient run
  between its writes and its last event: up to the log, the storage it leaves is the one
  the calls of the recipient leave, begun on the storage of \<open>receiver_entry\<close>.
\<close>

lemma dispatch_shape:
  assumes "dispatch e c s = Inr s'"
  shows "\<exists>s0. own_effect e c s = Inr s0 \<and>
           (case receiver_entry e c s of
              None \<Rightarrow> s' = s0
            | Some m \<Rightarrow>
                \<exists>evs. s0 = m\<lparr>events := events m @ evs\<rparr> \<and>
                      s' = (run m (receiver_calls e))
                             \<lparr>events := events (run m (receiver_calls e)) @ evs\<rparr>)"
proof (cases c)
  case (IssueCertificate r rname title)
  with assms have "issueCertificate_with (\<lambda>s'. run s' (receiver_calls e)) e r rname title s = Inr s'"
    by simp
  from issueCertificate_with_Inr [OF this]
  obtain m where chk: "hasRole s ISSUER_ROLE (msg_sender e)"
      "status (issuers s (msg_sender e)) = Active" "nextTokenId s \<noteq> - 1"
      "receiver_has_code e \<longrightarrow> receiver_answer e = ReturnsSelector"
    and m: "mint r (nextTokenId s) (issue_writes e r rname title s) = Inr m"
    and s': "s' = (if receiver_has_code e then run m (receiver_calls e) else m)
                     \<lparr>events := events (if receiver_has_code e then run m (receiver_calls e) else m) @
                                 [CertificateIssued (nextTokenId s) (msg_sender e) r]\<rparr>"
    by blast
  have own: "own_effect e c s
               = Inr (m\<lparr>events := events m @ [CertificateIssued (nextTokenId s) (msg_sender e) r]\<rparr>)"
    using chk m
    by (simp add: IssueCertificate issueCertificate_with_def safeMint_with_def checkRole_def
          checkOnERC721Received_def Let_def)
  show ?thesis
  proof (cases "receiver_has_code e")
    case True
    with m have "receiver_entry e c s = Some m"
      by (simp add: IssueCertificate)
    with own s' True show ?thesis by auto
  next
    case False
    with m have "receiver_entry e c s = None"
      by (simp add: IssueCertificate)
    with own s' False show ?thesis by simp
  qed
next
  case (SafeTransferFrom frm to tokenId)
  with assms have "safeTransferFrom_with (\<lambda>s'. run s' (receiver_calls e)) e frm to tokenId s = Inr s'"
    by simp
  from safeTransferFrom_with_Inr [OF this]
  obtain m where chk: "receiver_has_code e \<longrightarrow> receiver_answer e = ReturnsSelector"
    and m: "transferFrom e frm to tokenId s = Inr m"
    and s': "s' = (if receiver_has_code e then run m (receiver_calls e) else m)"
    by blast
  have own: "own_effect e c s = Inr m"
    using chk m
    by (simp add: SafeTransferFrom safeTransferFrom_with_def checkOnERC721Received_def)
  show ?thesis
  proof (cases "receiver_has_code e")
    case True
    with m have "receiver_entry e c s = Some m"
      by (simp add: SafeTransferFrom)
    with own s' True show ?thesis
      by (auto intro!: exI [of _ "[]"])
  next
    case False
    with m have "receiver_entry e c s = None"
      by (simp add: SafeTransferFrom)
    with own s' False show ?thesis by simp
  qed
qed (use assms in simp_all)

text \<open>
  Induction over an execution. A relation between the storage before, the successful
  calls, and the storage after holds of every sequence of calls when it holds of no call
  at all, composes, holds of what each call does by itself, and does not look at the log
  of the storage after.
\<close>

lemma execution_induct:
  assumes base: "\<And>s. Q s [] s"
    and seq: "\<And>s tr1 t tr2 u. Q s tr1 t \<Longrightarrow> Q t tr2 u \<Longrightarrow> Q s (tr1 @ tr2) u"
    and own: "\<And>e c s s0. own_effect e c s = Inr s0 \<Longrightarrow> Q s [(e, c, s)] s0"
    and log: "\<And>s tr m evs. Q s tr (m\<lparr>events := evs\<rparr>) = Q s tr m"
  shows "Q s (successes s txs) (run s txs)"
proof (induction s txs rule: successes.induct)
  case (1 s)
  show ?case by (simp add: base)
next
  case (2 s e c txs)
  show ?case
  proof (cases "dispatch e c s")
    case (Inl err)
    with "2.IH"(1) show ?thesis by simp
  next
    case (Inr s')
    from dispatch_shape [OF Inr] obtain s0 where s0: "own_effect e c s = Inr s0"
      and sh: "case receiver_entry e c s of
                 None \<Rightarrow> s' = s0
               | Some m \<Rightarrow>
                   \<exists>evs. s0 = m\<lparr>events := events m @ evs\<rparr> \<and>
                         s' = (run m (receiver_calls e))
                                \<lparr>events := events (run m (receiver_calls e)) @ evs\<rparr>"
      by blast
    have call: "Q s ((e, c, s) # (case receiver_entry e c s of
                                    None \<Rightarrow> []
                                  | Some m \<Rightarrow> successes m (receiver_calls e))) s'"
    proof (cases "receiver_entry e c s")
      case None
      with sh own [OF s0] show ?thesis by simp
    next
      case (Some m)
      with sh obtain evs where m: "s0 = m\<lparr>events := events m @ evs\<rparr>"
        and s': "s' = (run m (receiver_calls e))
                        \<lparr>events := events (run m (receiver_calls e)) @ evs\<rparr>"
        by auto
      from own [OF s0] have "Q s [(e, c, s)] m"
        by (simp add: m log)
      moreover have "Q m (successes m (receiver_calls e)) (run m (receiver_calls e))"
        using "2.IH"(2) [OF Inr Some] .
      ultimately have "Q s ([(e, c, s)] @ successes m (receiver_calls e)) (run m (receiver_calls e))"
        by (rule seq)
      then show ?thesis
        by (simp add: Some s' log)
    qed
    have rest: "Q s' (successes s' txs) (run s' txs)"
      using "2.IH"(3) [OF Inr] .
    from seq [OF call rest] Inr show ?thesis by simp
  qed
qed

lemma run_single: "dispatch e c s = Inr s' \<Longrightarrow> run s [(e, c)] = s'"
  by simp

lemma dispatch_issue: "dispatch e (IssueCertificate r rname title) s = issueCertificate e r rname title s"
  by (simp add: issueCertificate_def)

lemma dispatch_safeTransfer:
  "dispatch e (SafeTransferFrom frm to tokenId) s = safeTransferFrom e frm to tokenId s"
  by (simp add: safeTransferFrom_def)

section \<open>The transfer guard\<close>

text \<open>A token that has an owner keeps it through every call: each write to the owner
  table goes through \<open>update\<close>, which refuses a token that is owned.\<close>

lemma own_owners_kept:
  assumes "own_effect e c s = Inr s'" and "owners s i \<noteq> 0"
  shows "owners s' i = owners s i"
proof (cases c)
  case (AddIssuer a nm web)
  with assms show ?thesis by (auto dest!: addIssuer_Inr)
next
  case (UpdateIssuerStatus a st)
  with assms show ?thesis by (auto dest!: updateIssuerStatus_Inr)
next
  case (IssueCertificate r rname title)
  with assms show ?thesis by (auto dest!: own_issue_Inr split: if_splits)
next
  case (GrantRole role a)
  with assms show ?thesis
    by (auto simp: grantRole_def grantRole_internal_def split: sum.splits if_splits)
next
  case (RevokeRole role a)
  with assms show ?thesis
    by (auto simp: revokeRole_def revokeRole_internal_def split: sum.splits if_splits)
next
  case (RenounceRole role a)
  with assms show ?thesis
    by (auto simp: renounceRole_def revokeRole_internal_def split: sum.splits if_splits)
next
  case (Approve to tokenId)
  with assms show ?thesis
    by (auto simp: approve_def approve_internal_def split: sum.splits if_splits)
next
  case (SetApprovalForAll operator approved)
  with assms show ?thesis
    by (auto simp: setApprovalForAll_def split: if_splits)
next
  case (TransferFrom frm to tokenId)
  with assms show ?thesis by (auto dest!: transferFrom_Inr split: if_splits)
next
  case (SafeTransferFrom frm to tokenId)
  with assms show ?thesis by (auto dest!: own_safeTransfer_Inr split: if_splits)
qed

lemma run_owners_kept:
  "owners s i \<noteq> 0 \<Longrightarrow> owners (run s txs) i = owners s i"
proof -
  have "owners s i \<noteq> 0 \<longrightarrow> owners (run s txs) i = owners s i"
    by (rule execution_induct [where Q = "\<lambda>s tr t. owners s i \<noteq> 0 \<longrightarrow> owners t i = owners s i"])
       (auto dest: own_owners_kept)
  then show "owners s i \<noteq> 0 \<Longrightarrow> owners (run s txs) i = owners s i" by simp
qed

section \<open>Identifiers\<close>

lemma own_other_frame:
  assumes "own_effect e c s = Inr s'" and "\<not> is_issue c"
  shows "nextTokenId s' = nextTokenId s \<and> certificateDetails s' = certificateDetails s"
proof (cases c)
  case (AddIssuer a nm web)
  with assms show ?thesis by (auto dest!: addIssuer_Inr)
next
  case (UpdateIssuerStatus a st)
  with assms show ?thesis by (auto dest!: updateIssuerStatus_Inr)
next
  case (IssueCertificate r rname title)
  with assms show ?thesis by simp
next
  case (GrantRole role a)
  with assms show ?thesis
    by (auto simp: grantRole_def grantRole_internal_def split: sum.splits if_splits)
next
  case (RevokeRole role a)
  with assms show ?thesis
    by (auto simp: revokeRole_def revokeRole_internal_def split: sum.splits if_splits)
next
  case (RenounceRole role a)
  with assms show ?thesis
    by (auto simp: renounceRole_def revokeRole_internal_def split: sum.splits if_splits)
next
  case (Approve to tokenId)
  with assms show ?thesis
    by (auto simp: approve_def approve_internal_def split: sum.splits if_splits)
next
  case (SetApprovalForAll operator approved)
  with assms show ?thesis
    by (auto simp: setApprovalForAll_def split: if_splits)
next
  case (TransferFrom frm to tokenId)
  with assms show ?thesis by (auto dest!: transferFrom_Inr)
next
  case (SafeTransferFrom frm to tokenId)
  with assms show ?thesis by (auto dest!: own_safeTransfer_Inr)
qed

lemma own_counter:
  assumes "own_effect e c s = Inr s0"
  shows "unat (nextTokenId s0) = unat (nextTokenId s) + (if is_issue c then 1 else 0)"
proof (cases "is_issue c")
  case True
  then obtain r rname title where "c = IssueCertificate r rname title"
    by (cases c) simp_all
  with assms have "issueCertificate_with (\<lambda>s'. s') e r rname title s = Inr s0" by simp
  from own_issue_Inr [OF this] True show ?thesis by (simp add: unat_inc)
next
  case False
  with assms show ?thesis by (simp add: own_other_frame)
qed

lemma own_record_kept:
  assumes "own_effect e c s = Inr s0" and "unat tokenId < unat (nextTokenId s)"
  shows "certificateDetails s0 tokenId = certificateDetails s tokenId
         \<and> unat tokenId < unat (nextTokenId s0)"
proof (cases "is_issue c")
  case True
  then obtain r rname title where "c = IssueCertificate r rname title"
    by (cases c) simp_all
  with assms(1) have "issueCertificate_with (\<lambda>s'. s') e r rname title s = Inr s0" by simp
  from own_issue_Inr [OF this] assms(2) show ?thesis
    by (auto simp: unat_inc)
next
  case False
  with assms show ?thesis by (simp add: own_other_frame)
qed

lemma run_record_kept:
  assumes "unat tokenId < unat (nextTokenId s)"
  shows "certificateDetails (run s txs) tokenId = certificateDetails s tokenId
         \<and> unat tokenId < unat (nextTokenId (run s txs))"
proof -
  have "unat tokenId < unat (nextTokenId s) \<longrightarrow>
          certificateDetails (run s txs) tokenId = certificateDetails s tokenId
          \<and> unat tokenId < unat (nextTokenId (run s txs))"
    by (rule execution_induct [where Q = "\<lambda>s tr t. unat tokenId < unat (nextTokenId s) \<longrightarrow>
          certificateDetails t tokenId = certificateDetails s tokenId
          \<and> unat tokenId < unat (nextTokenId t)"])
       (auto dest: own_record_kept)
  with assms show ?thesis by simp
qed

lemma upt_glue: "a \<le> b \<Longrightarrow> b \<le> c \<Longrightarrow> [a..<b] @ [b..<c] = [a..<c]" for a b c :: nat
  by (metis le_Suc_ex upt_add_eq_append)

lemma issuances_from:
  "map (\<lambda>(e, c, s1). unat (nextTokenId s1)) (issuances s txs)
     = [unat (nextTokenId s)..<unat (nextTokenId (run s txs))]
   \<and> unat (nextTokenId s) \<le> unat (nextTokenId (run s txs))"
  unfolding issuances_def
proof (rule execution_induct [where Q = "\<lambda>s tr t.
          map (\<lambda>(e, c, s1). unat (nextTokenId s1)) (filter (\<lambda>(e, c, s1). is_issue c) tr)
            = [unat (nextTokenId s)..<unat (nextTokenId t)]
          \<and> unat (nextTokenId s) \<le> unat (nextTokenId t)"], goal_cases)
  case (1 s)
  show ?case by simp
next
  case (2 s tr1 t tr2 u)
  then show ?case
    by (simp add: upt_glue)
next
  case (3 e c s s0)
  from own_counter [OF 3] show ?case
    by (cases "is_issue c") (simp_all add: upt_conv_Cons del: upt_Suc)
next
  case (4 s tr m evs)
  show ?case by simp
qed

lemma issuances_count:
  "unat (nextTokenId (run s txs)) = unat (nextTokenId s) + length (issuances s txs)"
proof -
  from issuances_from [of s txs]
  have "length (issuances s txs) = unat (nextTokenId (run s txs)) - unat (nextTokenId s)"
    and "unat (nextTokenId s) \<le> unat (nextTokenId (run s txs))"
    by (metis length_map length_upt, simp)
  then show ?thesis by simp
qed

lemma nextTokenId_constructor: "nextTokenId (constructor e0) = 0"
  by (simp add: constructor_def setRoleAdmin_def grantRole_internal_def empty_storage_def Let_def)

text \<open>The issuance with the recipient of its environment: the recipient's calls run on
  the storage \<open>m\<close> that the issuance has written, and the event closes the call.\<close>

lemma issueCertificate_Inr:
  assumes "issueCertificate e r rname title s = Inr s'"
  shows "hasRole s ISSUER_ROLE (msg_sender e) \<and> status (issuers s (msg_sender e)) = Active \<and>
         nextTokenId s \<noteq> - 1 \<and> r \<noteq> 0 \<and> owners s (nextTokenId s) = 0 \<and>
         (\<exists>m t. m = s\<lparr>nextTokenId := nextTokenId s + 1,
                        certificateDetails := (certificateDetails s)(nextTokenId s :=
                          \<lparr>recipientName = rname, recipientAddress = r,
                           issuerAddress = msg_sender e, issueDate = block_timestamp e,
                           courseTitle = title\<rparr>),
                        balances := (balances s)(r := balances s r + 1),
                        owners := (owners s)(nextTokenId s := r),
                        events := events s @ [Transfer 0 r (nextTokenId s)]\<rparr>
              \<and> t = (if receiver_has_code e then run m (receiver_calls e) else m)
              \<and> s' = t\<lparr>events := events t @
                                  [CertificateIssued (nextTokenId s) (msg_sender e) r]\<rparr>)"
  using issueCertificate_with_Inr [OF assms [unfolded issueCertificate_def]]
  by (auto dest!: issue_mint_Inr)

lemma issueCertificate_keys:
  assumes "issueCertificate e r rname title s = Inr s'"
  shows "certificateDetails s' (nextTokenId s)
           = \<lparr>recipientName = rname, recipientAddress = r, issuerAddress = msg_sender e,
              issueDate = block_timestamp e, courseTitle = title\<rparr>"
    and "owners s' (nextTokenId s) = r"
    and "last (events s') = CertificateIssued (nextTokenId s) (msg_sender e) r"
    and "\<not> receiver_has_code e \<or> receiver_calls e = [] \<Longrightarrow>
           unat (nextTokenId s') = unat (nextTokenId s) + 1"
proof -
  from issueCertificate_Inr [OF assms]
  obtain m t where chk: "nextTokenId s \<noteq> - 1" "r \<noteq> 0"
    and m: "m = s\<lparr>nextTokenId := nextTokenId s + 1,
                        certificateDetails := (certificateDetails s)(nextTokenId s :=
                          \<lparr>recipientName = rname, recipientAddress = r,
                           issuerAddress = msg_sender e, issueDate = block_timestamp e,
                           courseTitle = title\<rparr>),
                        balances := (balances s)(r := balances s r + 1),
                        owners := (owners s)(nextTokenId s := r),
                        events := events s @ [Transfer 0 r (nextTokenId s)]\<rparr>"
    and t: "t = (if receiver_has_code e then run m (receiver_calls e) else m)"
    and s': "s' = t\<lparr>events := events t @ [CertificateIssued (nextTokenId s) (msg_sender e) r]\<rparr>"
    by blast
  have below: "unat (nextTokenId s) < unat (nextTokenId m)"
    using chk by (simp add: m unat_inc)
  have owned: "owners m (nextTokenId s) \<noteq> 0"
    using chk by (simp add: m)
  have "certificateDetails t (nextTokenId s) = certificateDetails m (nextTokenId s)"
    using run_record_kept [OF below] by (simp add: t)
  then show "certificateDetails s' (nextTokenId s)
           = \<lparr>recipientName = rname, recipientAddress = r, issuerAddress = msg_sender e,
              issueDate = block_timestamp e, courseTitle = title\<rparr>"
    by (simp add: s' m)
  have "owners t (nextTokenId s) = owners m (nextTokenId s)"
    using run_owners_kept [OF owned] by (simp add: t)
  then show "owners s' (nextTokenId s) = r"
    by (simp add: s' m)
  show "last (events s') = CertificateIssued (nextTokenId s) (msg_sender e) r"
    by (simp add: s')
  assume "\<not> receiver_has_code e \<or> receiver_calls e = []"
  then have "t = m" by (auto simp: t)
  then show "unat (nextTokenId s') = unat (nextTokenId s) + 1"
    using chk by (simp add: s' m unat_inc)
qed

text \<open>
  Claim C1, as amended. The guard \<open>update\<close> lets an ownership assignment through only
  when the token's prior owner is the zero address, and the assignment that
  \<open>issueCertificate\<close> makes for the identifier it allocates is such a one. Once the
  token has an owner, every further invocation of the guard fails with
  \<open>TransferForbidden\<close>, whatever the new owner, the authorising address and the role
  table of the storage; this stays so after any sequence of calls by any callers, none of
  which changes the owner. A public transfer of the token fails with
  \<open>TransferForbidden\<close> when the new owner is a nonzero address; when the new owner is
  the zero address it fails before it reaches the guard, with \<open>ERC721InvalidReceiver\<close>.
\<close>

theorem soulbound_guard:
  "(update to tokenId auth s = Inr (p, s1) \<longrightarrow>
      ownerOf_internal s tokenId = 0 \<and> ownerOf_internal s1 tokenId = to)
   \<and> (issueCertificate e r rname title s = Inr s2 \<longrightarrow>
        ownerOf_internal s (nextTokenId s) = 0 \<and> ownerOf_internal s2 (nextTokenId s) = r \<and> r \<noteq> 0)
   \<and> (ownerOf_internal s3 tokenId \<noteq> 0 \<longrightarrow>
        update to' tokenId auth' s3 = Inl TransferForbidden
        \<and> ownerOf_internal (run s3 txs) tokenId = ownerOf_internal s3 tokenId
        \<and> update to' tokenId auth' (run s3 txs) = Inl TransferForbidden
        \<and> dispatch e' (TransferFrom from to' tokenId) (run s3 txs)
            = (if to' = 0 then Inl (ERC721InvalidReceiver 0) else Inl TransferForbidden)
        \<and> dispatch e' (SafeTransferFrom from to' tokenId) (run s3 txs)
            = (if to' = 0 then Inl (ERC721InvalidReceiver 0) else Inl TransferForbidden))"
proof (intro conjI impI)
  assume "update to tokenId auth s = Inr (p, s1)"
  from update_Inr [OF this]
  show "ownerOf_internal s tokenId = 0" and "ownerOf_internal s1 tokenId = to"
    by (simp_all add: ownerOf_internal_def)
next
  assume iss: "issueCertificate e r rname title s = Inr s2"
  from issueCertificate_Inr [OF iss] issueCertificate_keys(2) [OF iss]
  show "ownerOf_internal s (nextTokenId s) = 0" and "ownerOf_internal s2 (nextTokenId s) = r"
    and "r \<noteq> 0"
    by (simp_all add: ownerOf_internal_def)
next
  assume owned: "ownerOf_internal s3 tokenId \<noteq> 0"
  then show "update to' tokenId auth' s3 = Inl TransferForbidden"
    by (simp add: update_def)
  from owned have kept: "owners (run s3 txs) tokenId = owners s3 tokenId"
    by (simp add: ownerOf_internal_def run_owners_kept)
  then show "ownerOf_internal (run s3 txs) tokenId = ownerOf_internal s3 tokenId"
    by (simp add: ownerOf_internal_def)
  from owned kept show "update to' tokenId auth' (run s3 txs) = Inl TransferForbidden"
    by (simp add: update_def ownerOf_internal_def)
  from owned kept
  show "dispatch e' (TransferFrom from to' tokenId) (run s3 txs)
            = (if to' = 0 then Inl (ERC721InvalidReceiver 0) else Inl TransferForbidden)"
    and "dispatch e' (SafeTransferFrom from to' tokenId) (run s3 txs)
            = (if to' = 0 then Inl (ERC721InvalidReceiver 0) else Inl TransferForbidden)"
    by (simp_all add: safeTransferFrom_with_def transferFrom_def update_def ownerOf_internal_def)
qed

theorem soulbound_guard_witness:
  "update recipient_R 0 0 (run deployed [tx_add])
     = Inr (0, (run deployed [tx_add])\<lparr>balances := (balances (run deployed [tx_add]))(recipient_R := 1),
                 owners := (owners (run deployed [tx_add]))(0 := recipient_R),
                 events := events (run deployed [tx_add]) @ [Transfer 0 recipient_R 0]\<rparr>)
   \<and> issueCertificate (fst tx_issue) recipient_R ''Rosa'' ''Algorithms 101'' (run deployed [tx_add])
       = Inr (run deployed [tx_add, tx_issue])
   \<and> nextTokenId (run deployed [tx_add]) = 0
   \<and> ownerOf_internal (run deployed [tx_add]) 0 = 0
   \<and> ownerOf_internal (run deployed [tx_add, tx_issue]) 0 = recipient_R
   \<and> recipient_R \<noteq> 0
   \<and> update admin_A 0 admin_A (run deployed [tx_add, tx_issue]) = Inl TransferForbidden
   \<and> ownerOf_internal (run (run deployed [tx_add, tx_issue]) [tx_suspend, tx_deactivate]) 0
       = recipient_R
   \<and> update admin_A 0 admin_A (run (run deployed [tx_add, tx_issue]) [tx_suspend, tx_deactivate])
       = Inl TransferForbidden
   \<and> dispatch (call_by recipient_R 105) (TransferFrom recipient_R admin_A 0)
        (run (run deployed [tx_add, tx_issue]) [tx_suspend, tx_deactivate]) = Inl TransferForbidden
   \<and> dispatch (call_by recipient_R 105) (SafeTransferFrom recipient_R admin_A 0)
        (run (run deployed [tx_add, tx_issue]) [tx_suspend, tx_deactivate]) = Inl TransferForbidden
   \<and> dispatch (call_by recipient_R 105) (TransferFrom recipient_R 0 0)
        (run (run deployed [tx_add, tx_issue]) [tx_suspend, tx_deactivate])
       = Inl (ERC721InvalidReceiver 0)"
proof -
  have u: "update recipient_R 0 0 (run deployed [tx_add])
     = Inr (0, (run deployed [tx_add])\<lparr>balances := (balances (run deployed [tx_add]))(recipient_R := 1),
                 owners := (owners (run deployed [tx_add]))(0 := recipient_R),
                 events := events (run deployed [tx_add]) @ [Transfer 0 recipient_R 0]\<rparr>)"
    by (simp add: scenario_defs contract_defs)
  have i: "issueCertificate (fst tx_issue) recipient_R ''Rosa'' ''Algorithms 101'' (run deployed [tx_add])
       = Inr (run deployed [tx_add, tx_issue])"
    by (simp add: scenario_defs contract_defs)
  have n: "nextTokenId (run deployed [tx_add]) = 0"
    by (simp add: scenario_defs contract_defs)
  have o: "ownerOf_internal (run deployed [tx_add, tx_issue]) 0 \<noteq> 0"
    by (simp add: scenario_defs contract_defs)
  have a: "admin_A \<noteq> 0" by (simp add: party_neq)
  show ?thesis
    using soulbound_guard [of recipient_R 0 0 "run deployed [tx_add]" 0 _ "fst tx_issue" recipient_R
       "''Rosa''" "''Algorithms 101''" "run deployed [tx_add, tx_issue]"
       "run deployed [tx_add, tx_issue]" admin_A admin_A "[tx_suspend, tx_deactivate]"
       "call_by recipient_R 105" recipient_R]
      soulbound_guard [of recipient_R 0 0 "run deployed [tx_add]" 0 _ "fst tx_issue" recipient_R
       "''Rosa''" "''Algorithms 101''" "run deployed [tx_add, tx_issue]"
       "run deployed [tx_add, tx_issue]" 0 admin_A "[tx_suspend, tx_deactivate]"
       "call_by recipient_R 105" recipient_R]
      u i n o a
    by simp
qed

text \<open>Claim C1 as stated fails for the transfer to the zero address: R's transfer of its
  credential there is refused with \<open>ERC721InvalidReceiver\<close>, not with
  \<open>TransferForbidden\<close>.\<close>

theorem transfer_to_zero_counterexample:
  "ownerOf_internal (run deployed [tx_add, tx_issue]) 0 = recipient_R
   \<and> recipient_R \<noteq> 0
   \<and> dispatch (fst tx_transfer_zero) (snd tx_transfer_zero) (run deployed [tx_add, tx_issue])
       = Inl (ERC721InvalidReceiver 0)
   \<and> dispatch (fst tx_transfer_zero) (snd tx_transfer_zero) (run deployed [tx_add, tx_issue])
       \<noteq> Inl TransferForbidden
   \<and> dispatch (fst tx_transfer) (snd tx_transfer) (run deployed [tx_add, tx_issue])
       = Inl TransferForbidden"
  by (simp add: scenario_defs contract_defs)

text \<open>
  Claim C3, as amended. In every sequence of calls on the deployed contract, the
  successful \<open>issueCertificate\<close> calls, taken in the order in which they begin and with
  those that a recipient makes during a receiver check among them, read the counter
  values 0, 1, 2, ..., and the counter after the sequence is their number; so a call that
  fails adds nothing. A successful call assigns the counter value it read: it is the key
  of the record and of the owner it writes and the identifier in its
  \<open>CertificateIssued\<close> event, which is the last event of the call. The call leaves the
  counter higher by one and by the number of the successful issuances that its recipient
  made during the receiver check: by exactly one when the recipient has no code or makes
  no call.
\<close>

theorem identifiers_count_issuances:
  "map (\<lambda>(e, c, s1). unat (nextTokenId s1)) (issuances (constructor e0) txs)
     = [0..<length (issuances (constructor e0) txs)]
   \<and> unat (nextTokenId (run (constructor e0) txs)) = length (issuances (constructor e0) txs)
   \<and> (issueCertificate e r rname title s = Inr s' \<longrightarrow>
        certificateDetails s' (nextTokenId s)
          = \<lparr>recipientName = rname, recipientAddress = r, issuerAddress = msg_sender e,
             issueDate = block_timestamp e, courseTitle = title\<rparr>
        \<and> ownerOf_internal s' (nextTokenId s) = r
        \<and> last (events s') = CertificateIssued (nextTokenId s) (msg_sender e) r
        \<and> unat (nextTokenId s')
            = unat (nextTokenId s) + length (issuances s [(e, IssueCertificate r rname title)])
        \<and> (\<not> receiver_has_code e \<or> receiver_calls e = [] \<longrightarrow>
              unat (nextTokenId s') = unat (nextTokenId s) + 1))"
proof (intro conjI impI)
  from issuances_count [of "constructor e0" txs]
  show n: "unat (nextTokenId (run (constructor e0) txs)) = length (issuances (constructor e0) txs)"
    by (simp add: nextTokenId_constructor)
  from issuances_from [of "constructor e0" txs]
  show "map (\<lambda>(e, c, s1). unat (nextTokenId s1)) (issuances (constructor e0) txs)
     = [0..<length (issuances (constructor e0) txs)]"
    by (simp add: nextTokenId_constructor n)
next
  assume iss: "issueCertificate e r rname title s = Inr s'"
  from issueCertificate_keys [OF iss]
  show "certificateDetails s' (nextTokenId s)
          = \<lparr>recipientName = rname, recipientAddress = r, issuerAddress = msg_sender e,
             issueDate = block_timestamp e, courseTitle = title\<rparr>"
    and "ownerOf_internal s' (nextTokenId s) = r"
    and "last (events s') = CertificateIssued (nextTokenId s) (msg_sender e) r"
    by (simp_all add: ownerOf_internal_def)
  from iss have "run s [(e, IssueCertificate r rname title)] = s'"
    by (simp add: issueCertificate_def)
  with issuances_count [of s "[(e, IssueCertificate r rname title)]"]
  show "unat (nextTokenId s')
            = unat (nextTokenId s) + length (issuances s [(e, IssueCertificate r rname title)])"
    by simp
  assume "\<not> receiver_has_code e \<or> receiver_calls e = []"
  then show "unat (nextTokenId s') = unat (nextTokenId s) + 1"
    by (rule issueCertificate_keys(4) [OF iss])
qed

theorem identifiers_count_issuances_witness:
  "map (\<lambda>(e, c, s1). unat (nextTokenId s1))
       (issuances (constructor (call_by admin_A 100))
          [tx_add, tx_issue_reentrant, tx_suspend, tx_issue, tx_add_J, tx_issue_J]) = [0..<3]
   \<and> unat (nextTokenId (run (constructor (call_by admin_A 100))
          [tx_add, tx_issue_reentrant, tx_suspend, tx_issue, tx_add_J, tx_issue_J])) = 3
   \<and> issueCertificate (fst tx_issue_reentrant) issuer_I ''Uni'' ''Algorithms 101''
        (run deployed [tx_add]) = Inr (run deployed [tx_add, tx_issue_reentrant])
   \<and> nextTokenId (run deployed [tx_add]) = 0
   \<and> ownerOf_internal (run deployed [tx_add, tx_issue_reentrant]) 0 = issuer_I
   \<and> last (events (run deployed [tx_add, tx_issue_reentrant]))
       = CertificateIssued 0 issuer_I issuer_I
   \<and> length (issuances (run deployed [tx_add])
        [(fst tx_issue_reentrant, IssueCertificate issuer_I ''Uni'' ''Algorithms 101'')]) = 2
   \<and> unat (nextTokenId (run deployed [tx_add, tx_issue_reentrant])) = 2
   \<and> issueCertificate (fst tx_issue_J) recipient_R ''Rosa'' ''Logic 1''
        (run deployed [tx_add, tx_issue_reentrant, tx_add_J])
       = Inr (run deployed [tx_add, tx_issue_reentrant, tx_add_J, tx_issue_J])
   \<and> \<not> receiver_has_code (fst tx_issue_J)
   \<and> unat (nextTokenId (run deployed [tx_add, tx_issue_reentrant, tx_add_J, tx_issue_J])) = 3"
proof -
  have len: "length (issuances (constructor (call_by admin_A 100))
          [tx_add, tx_issue_reentrant, tx_suspend, tx_issue, tx_add_J, tx_issue_J]) = 3"
    by (simp add: issuances_def scenario_defs contract_defs)
  have i: "issueCertificate (fst tx_issue_reentrant) issuer_I ''Uni'' ''Algorithms 101''
        (run deployed [tx_add]) = Inr (run deployed [tx_add, tx_issue_reentrant])"
    by (simp add: scenario_defs contract_defs)
  have n: "nextTokenId (run deployed [tx_add]) = 0"
    by (simp add: scenario_defs contract_defs)
  have l2: "length (issuances (run deployed [tx_add])
        [(fst tx_issue_reentrant, IssueCertificate issuer_I ''Uni'' ''Algorithms 101'')]) = 2"
    by (simp add: issuances_def scenario_defs contract_defs)
  have m: "msg_sender (fst tx_issue_reentrant) = issuer_I"
    by (simp add: scenario_defs)
  have j: "issueCertificate (fst tx_issue_J) recipient_R ''Rosa'' ''Logic 1''
        (run deployed [tx_add, tx_issue_reentrant, tx_add_J])
       = Inr (run deployed [tx_add, tx_issue_reentrant, tx_add_J, tx_issue_J])"
    by (simp add: scenario_defs contract_defs)
  have nj: "nextTokenId (run deployed [tx_add, tx_issue_reentrant, tx_add_J]) = 2"
    by (simp add: scenario_defs contract_defs)
  have c: "\<not> receiver_has_code (fst tx_issue_J)"
    by (simp add: scenario_defs)
  show ?thesis
    using identifiers_count_issuances [of "call_by admin_A 100"
        "[tx_add, tx_issue_reentrant, tx_suspend, tx_issue, tx_add_J, tx_issue_J]"
        "fst tx_issue_reentrant" issuer_I "''Uni''" "''Algorithms 101''"
        "run deployed [tx_add]" "run deployed [tx_add, tx_issue_reentrant]"]
      identifiers_count_issuances [of "call_by admin_A 100" "[]"
        "fst tx_issue_J" recipient_R "''Rosa''" "''Logic 1''"
        "run deployed [tx_add, tx_issue_reentrant, tx_add_J]"
        "run deployed [tx_add, tx_issue_reentrant, tx_add_J, tx_issue_J]"]
      len i n l2 m j nj c
    by simp
qed

text \<open>
  Claim C3 as stated fails where a recipient issues during the receiver check. The
  issuer I, a contract, issues to itself and, asked by the receiver check, issues once
  more before it answers. The one call of I leaves the counter at 2, and the issuance
  that succeeds first, with no successful issuance before it, is the inner one: it
  carries the identifier 1, and the log has it before the identifier 0.
\<close>

theorem reentrant_issuance_counterexample:
  "dispatch (fst tx_issue_reentrant) (snd tx_issue_reentrant) (run deployed [tx_add])
     = Inr (run deployed [tx_add, tx_issue_reentrant])
   \<and> nextTokenId (run deployed [tx_add]) = 0
   \<and> logged_ids (events (run deployed [tx_add])) = []
   \<and> nextTokenId (run deployed [tx_add, tx_issue_reentrant]) = 2
   \<and> logged_ids (events (run deployed [tx_add, tx_issue_reentrant])) = [1, 0]"
  by (simp add: scenario_defs contract_defs)

section \<open>The issuer lifecycle\<close>

text \<open>
  Claim C4, as amended. For an identity with an issuer record and an Admin caller,
  \<open>updateIssuerStatus\<close> with the identity's current status fails with
  \<open>StatusUnchanged\<close> when that status is \<open>Active\<close> or \<open>Suspended\<close>, and with
  \<open>IssuerDeactivated\<close> when it is \<open>Deactivated\<close>: the check for the terminal status
  comes first.
\<close>

theorem redundant_status_rejected:
  assumes "hasRole s ADMIN_ROLE (msg_sender e)" and "issuerExists s a"
  shows "updateIssuerStatus e a (status (issuers s a)) s =
           (if status (issuers s a) = Deactivated then Inl IssuerDeactivated
            else Inl StatusUnchanged)"
  using assms by (simp add: updateIssuerStatus_def checkRole_def)

theorem redundant_status_rejected_witness:
  "hasRole (run deployed [tx_add]) ADMIN_ROLE (msg_sender (call_by admin_A 105))
   \<and> issuerExists (run deployed [tx_add]) issuer_I
   \<and> status (issuers (run deployed [tx_add]) issuer_I) = Active
   \<and> updateIssuerStatus (call_by admin_A 105) issuer_I Active (run deployed [tx_add])
       = Inl StatusUnchanged"
proof -
  have h: "hasRole (run deployed [tx_add]) ADMIN_ROLE (msg_sender (call_by admin_A 105))"
    by (simp add: scenario_defs contract_defs)
  have x: "issuerExists (run deployed [tx_add]) issuer_I"
    by (simp add: scenario_defs contract_defs)
  have st: "status (issuers (run deployed [tx_add]) issuer_I) = Active"
    by (simp add: scenario_defs contract_defs)
  show ?thesis
    using redundant_status_rejected [OF h x] h x st by simp
qed

text \<open>Claim C4 as stated fails for the current status \<open>Deactivated\<close>: the Admin's
  call with that same status is rejected with \<open>IssuerDeactivated\<close>.\<close>

theorem redundant_deactivation_counterexample:
  "hasRole (run deployed [tx_add, tx_deactivate]) ADMIN_ROLE (msg_sender (call_by admin_A 105))
   \<and> issuerExists (run deployed [tx_add, tx_deactivate]) issuer_I
   \<and> status (issuers (run deployed [tx_add, tx_deactivate]) issuer_I) = Deactivated
   \<and> updateIssuerStatus (call_by admin_A 105) issuer_I
        (status (issuers (run deployed [tx_add, tx_deactivate]) issuer_I))
        (run deployed [tx_add, tx_deactivate]) = Inl IssuerDeactivated
   \<and> updateIssuerStatus (call_by admin_A 105) issuer_I
        (status (issuers (run deployed [tx_add, tx_deactivate]) issuer_I))
        (run deployed [tx_add, tx_deactivate]) \<noteq> Inl StatusUnchanged"
  by (simp add: scenario_defs contract_defs)

text \<open>
  Claim C6. Called by an Admin, \<open>addIssuer\<close> fails with \<open>IssuerAlreadyExists\<close> exactly
  when the identity's registration timestamp is nonzero. Otherwise it succeeds, and then
  the identity holds \<open>ISSUER_ROLE\<close>, its record is the given name and website with
  status \<open>Active\<close> and the block timestamp as registration date, no other record
  changes, and \<open>IssuerAdded\<close> is the last event of the log, which has only grown.
\<close>

theorem addIssuer_by_admin:
  assumes "hasRole s ADMIN_ROLE (msg_sender e)"
  shows "(addIssuer e a nm web s = Inl IssuerAlreadyExists) = issuerExists s a
    \<and> (\<not> issuerExists s a \<longrightarrow> \<not> isl (addIssuer e a nm web s))
    \<and> (addIssuer e a nm web s = Inr s' \<longrightarrow>
           hasRole s' ISSUER_ROLE a
           \<and> issuers s' a = \<lparr>name = nm, website = web, status = Active,
                              registrationDate = block_timestamp e\<rparr>
           \<and> (\<forall>b. b \<noteq> a \<longrightarrow> issuers s' b = issuers s b)
           \<and> (\<exists>evs. events s' = events s @ evs @ [IssuerAdded a]))"
proof (intro conjI impI)
  show "(addIssuer e a nm web s = Inl IssuerAlreadyExists) = issuerExists s a"
    using assms by (simp add: addIssuer_def checkRole_def Let_def)
  show "\<not> isl (addIssuer e a nm web s)" if "\<not> issuerExists s a"
    using assms that by (simp add: addIssuer_def checkRole_def Let_def)
next
  assume "addIssuer e a nm web s = Inr s'"
  from addIssuer_Inr [OF this]
  show "hasRole s' ISSUER_ROLE a"
    and "issuers s' a = \<lparr>name = nm, website = web, status = Active,
                           registrationDate = block_timestamp e\<rparr>"
    and "\<forall>b. b \<noteq> a \<longrightarrow> issuers s' b = issuers s b"
    and "\<exists>evs. events s' = events s @ evs @ [IssuerAdded a]"
    by (simp_all add: hasRole_def)
qed

theorem addIssuer_by_admin_witness:
  "hasRole deployed ADMIN_ROLE (msg_sender (fst tx_add))
   \<and> \<not> issuerExists deployed issuer_I
   \<and> addIssuer (fst tx_add) issuer_I ''Uni'' ''uni.example'' deployed = Inr (run deployed [tx_add])
   \<and> hasRole (run deployed [tx_add]) ISSUER_ROLE issuer_I
   \<and> issuers (run deployed [tx_add]) issuer_I
       = \<lparr>name = ''Uni'', website = ''uni.example'', status = Active, registrationDate = 101\<rparr>
   \<and> hasRole (run deployed [tx_add]) ADMIN_ROLE (msg_sender (fst tx_add))
   \<and> issuerExists (run deployed [tx_add]) issuer_I
   \<and> addIssuer (fst tx_add) issuer_I ''Uni'' ''uni.example'' (run deployed [tx_add])
       = Inl IssuerAlreadyExists"
proof -
  have h: "hasRole deployed ADMIN_ROLE (msg_sender (fst tx_add))"
    by (simp add: scenario_defs contract_defs)
  have n: "\<not> issuerExists deployed issuer_I"
    by (simp add: scenario_defs contract_defs)
  have r: "addIssuer (fst tx_add) issuer_I ''Uni'' ''uni.example'' deployed
             = Inr (run deployed [tx_add])"
    by (simp add: scenario_defs contract_defs)
  have t: "block_timestamp (fst tx_add) = 101"
    by (simp add: scenario_defs)
  have h': "hasRole (run deployed [tx_add]) ADMIN_ROLE (msg_sender (fst tx_add))"
    by (simp add: scenario_defs contract_defs)
  have x: "issuerExists (run deployed [tx_add]) issuer_I"
    by (simp add: scenario_defs contract_defs)
  show ?thesis
    using addIssuer_by_admin [OF h, of issuer_I "''Uni''" "''uni.example''" "run deployed [tx_add]"]
      addIssuer_by_admin [OF h', of issuer_I "''Uni''" "''uni.example''"] h n r t h' x
    by simp
qed

text \<open>
  Claim C9. A successful \<open>updateIssuerStatus\<close> writes the status field of the target
  record and nothing else of the tables: the target's name, website and registration
  date, every other issuer record, the credential table, the counter and the ownership
  data are as before. The role table is as before unless the new status is
  \<open>Deactivated\<close>, and then it differs in one entry only: the target no longer holds
  \<open>ISSUER_ROLE\<close>.
\<close>

theorem updateIssuerStatus_frame:
  assumes "updateIssuerStatus e a st s = Inr s'"
  shows "status (issuers s' a) = st
    \<and> name (issuers s' a) = name (issuers s a)
    \<and> website (issuers s' a) = website (issuers s a)
    \<and> registrationDate (issuers s' a) = registrationDate (issuers s a)
    \<and> (\<forall>b. b \<noteq> a \<longrightarrow> issuers s' b = issuers s b)
    \<and> certificateDetails s' = certificateDetails s
    \<and> nextTokenId s' = nextTokenId s
    \<and> owners s' = owners s \<and> balances s' = balances s
    \<and> tokenApprovals s' = tokenApprovals s \<and> operatorApprovals s' = operatorApprovals s
    \<and> adminRole s' = adminRole s
    \<and> (st \<noteq> Deactivated \<longrightarrow> roles s' = roles s)
    \<and> (st = Deactivated \<longrightarrow>
           \<not> hasRole s' ISSUER_ROLE a
           \<and> (\<forall>r b. (r, b) \<noteq> (ISSUER_ROLE, a) \<longrightarrow> hasRole s' r b = hasRole s r b))"
  using updateIssuerStatus_Inr [OF assms] by (auto simp: hasRole_def)

theorem updateIssuerStatus_frame_witness:
  "updateIssuerStatus (fst tx_deactivate) issuer_I Deactivated (run deployed [tx_add])
     = Inr (run deployed [tx_add, tx_deactivate])
   \<and> status (issuers (run deployed [tx_add, tx_deactivate]) issuer_I) = Deactivated
   \<and> name (issuers (run deployed [tx_add, tx_deactivate]) issuer_I) = ''Uni''
   \<and> registrationDate (issuers (run deployed [tx_add, tx_deactivate]) issuer_I) = 101
   \<and> nextTokenId (run deployed [tx_add, tx_deactivate]) = nextTokenId (run deployed [tx_add])
   \<and> hasRole (run deployed [tx_add]) ISSUER_ROLE issuer_I
   \<and> \<not> hasRole (run deployed [tx_add, tx_deactivate]) ISSUER_ROLE issuer_I
   \<and> hasRole (run deployed [tx_add, tx_deactivate]) ADMIN_ROLE admin_A
   \<and> updateIssuerStatus (fst tx_suspend) issuer_I Suspended (run deployed [tx_add])
       = Inr (run deployed [tx_add, tx_suspend])
   \<and> Suspended \<noteq> Deactivated
   \<and> roles (run deployed [tx_add, tx_suspend]) = roles (run deployed [tx_add])"
proof -
  have r: "updateIssuerStatus (fst tx_deactivate) issuer_I Deactivated (run deployed [tx_add])
     = Inr (run deployed [tx_add, tx_deactivate])"
    by (simp add: scenario_defs contract_defs)
  have r2: "updateIssuerStatus (fst tx_suspend) issuer_I Suspended (run deployed [tx_add])
     = Inr (run deployed [tx_add, tx_suspend])"
    by (simp add: scenario_defs contract_defs)
  have b: "name (issuers (run deployed [tx_add]) issuer_I) = ''Uni''"
    "registrationDate (issuers (run deployed [tx_add]) issuer_I) = 101"
    "hasRole (run deployed [tx_add]) ISSUER_ROLE issuer_I"
    "hasRole (run deployed [tx_add]) ADMIN_ROLE admin_A"
    "(ADMIN_ROLE, admin_A) \<noteq> (ISSUER_ROLE, issuer_I)"
    by (simp_all add: scenario_defs contract_defs)
  show ?thesis
    using updateIssuerStatus_frame [OF r] updateIssuerStatus_frame [OF r2] r r2 b by simp
qed

section \<open>The gate of issuance\<close>

text \<open>
  Claim C5, as amended. \<open>issueCertificate\<close> succeeds only when the caller holds
  \<open>ISSUER_ROLE\<close> and the status stored for the caller in the issuer table is \<open>Active\<close>;
  the existence of a record (a nonzero registration date) is not asked for. A caller that
  holds the role and whose stored status is \<open>Suspended\<close> is refused with
  \<open>IssuerNotActive\<close>, and the call leaves the storage as it was.
\<close>

theorem issuance_gate:
  "(issueCertificate e r rname title s = Inr s' \<longrightarrow>
      hasRole s ISSUER_ROLE (msg_sender e) \<and> status (issuers s (msg_sender e)) = Active)
   \<and> (hasRole s2 ISSUER_ROLE (msg_sender e2) \<and> status (issuers s2 (msg_sender e2)) = Suspended \<longrightarrow>
        issueCertificate e2 r2 rname2 title2 s2 = Inl IssuerNotActive
        \<and> snd (transact e2 (IssueCertificate r2 rname2 title2) s2) = s2)"
proof (intro conjI impI)
  assume "issueCertificate e r rname title s = Inr s'"
  from issueCertificate_Inr [OF this]
  show "hasRole s ISSUER_ROLE (msg_sender e)" and "status (issuers s (msg_sender e)) = Active"
    by simp_all
next
  assume "hasRole s2 ISSUER_ROLE (msg_sender e2) \<and> status (issuers s2 (msg_sender e2)) = Suspended"
  then show f: "issueCertificate e2 r2 rname2 title2 s2 = Inl IssuerNotActive"
    by (simp add: issueCertificate_def issueCertificate_with_def checkRole_def)
  then show "snd (transact e2 (IssueCertificate r2 rname2 title2) s2) = s2"
    by (simp add: transact_def issueCertificate_def)
qed

theorem issuance_gate_witness:
  "issueCertificate (fst tx_issue) recipient_R ''Rosa'' ''Algorithms 101'' (run deployed [tx_add])
     = Inr (run deployed [tx_add, tx_issue])
   \<and> hasRole (run deployed [tx_add]) ISSUER_ROLE issuer_I
   \<and> status (issuers (run deployed [tx_add]) issuer_I) = Active
   \<and> hasRole (run deployed [tx_add, tx_suspend]) ISSUER_ROLE issuer_I
   \<and> status (issuers (run deployed [tx_add, tx_suspend]) issuer_I) = Suspended
   \<and> issueCertificate (fst tx_issue) recipient_R ''Rosa'' ''Algorithms 101''
        (run deployed [tx_add, tx_suspend]) = Inl IssuerNotActive
   \<and> run deployed [tx_add, tx_suspend, tx_issue] = run deployed [tx_add, tx_suspend]"
proof -
  have i: "issueCertificate (fst tx_issue) recipient_R ''Rosa'' ''Algorithms 101''
        (run deployed [tx_add]) = Inr (run deployed [tx_add, tx_issue])"
    by (simp add: scenario_defs contract_defs)
  have h: "hasRole (run deployed [tx_add, tx_suspend]) ISSUER_ROLE (msg_sender (fst tx_issue))
      \<and> status (issuers (run deployed [tx_add, tx_suspend]) (msg_sender (fst tx_issue))) = Suspended"
    by (simp add: scenario_defs contract_defs)
  have m: "msg_sender (fst tx_issue) = issuer_I"
    by (simp add: scenario_defs)
  have r: "run deployed [tx_add, tx_suspend, tx_issue]
      = snd (transact (fst tx_issue) (IssueCertificate recipient_R ''Rosa'' ''Algorithms 101'')
               (run deployed [tx_add, tx_suspend]))"
    by (simp add: tx_add_def tx_suspend_def tx_issue_def transact_def split: sum.split)
  show ?thesis
    using issuance_gate [of "fst tx_issue" recipient_R "''Rosa''" "''Algorithms 101''"
        "run deployed [tx_add]" "run deployed [tx_add, tx_issue]"
        "run deployed [tx_add, tx_suspend]" "fst tx_issue" recipient_R "''Rosa''" "''Algorithms 101''"]
      i h m r
    by simp
qed

text \<open>Claim C5 as stated asks for an issuer record. An identity that was given
  \<open>ISSUER_ROLE\<close> by \<open>grantRole\<close> and was never added has none, its entry of the issuer
  table is the default one, whose status reads \<open>Active\<close>, and its issuance succeeds.\<close>

theorem issuance_without_record_counterexample:
  "hasRole (run deployed [tx_grant_K]) ISSUER_ROLE issuer_K
   \<and> \<not> issuerExists (run deployed [tx_grant_K]) issuer_K
   \<and> issuers (run deployed [tx_grant_K]) issuer_K = default_Issuer
   \<and> issueCertificate (fst tx_issue_K) recipient_R ''Rosa'' ''Sets'' (run deployed [tx_grant_K])
       = Inr (run deployed [tx_grant_K, tx_issue_K])
   \<and> ownerOf_internal (run deployed [tx_grant_K, tx_issue_K]) 0 = recipient_R
   \<and> certificateExists (run deployed [tx_grant_K, tx_issue_K]) 0"
  by (simp add: scenario_defs contract_defs)

section \<open>Existence of records\<close>

lemma own_issuers:
  assumes "own_effect e c s = Inr s'"
  shows "issuers s' a = issuers s a
         \<or> (adds a c \<and> \<not> issuerExists s a)
         \<or> (\<exists>st. c = UpdateIssuerStatus a st \<and> issuerExists s a
                  \<and> status (issuers s a) \<noteq> Deactivated
                  \<and> issuers s' a = (issuers s a)\<lparr>status := st\<rparr>)"
proof (cases c)
  case (AddIssuer b nm web)
  with assms show ?thesis by (auto dest!: addIssuer_Inr split: if_splits)
next
  case (UpdateIssuerStatus b st)
  with assms show ?thesis by (auto dest!: updateIssuerStatus_Inr split: if_splits)
next
  case (IssueCertificate r rname title)
  with assms show ?thesis by (auto dest!: own_issue_Inr split: if_splits)
next
  case (GrantRole role b)
  with assms show ?thesis
    by (auto simp: grantRole_def grantRole_internal_def split: sum.splits if_splits)
next
  case (RevokeRole role b)
  with assms show ?thesis
    by (auto simp: revokeRole_def revokeRole_internal_def split: sum.splits if_splits)
next
  case (RenounceRole role b)
  with assms show ?thesis
    by (auto simp: renounceRole_def revokeRole_internal_def split: sum.splits if_splits)
next
  case (Approve to tokenId)
  with assms show ?thesis
    by (auto simp: approve_def approve_internal_def split: sum.splits if_splits)
next
  case (SetApprovalForAll operator approved)
  with assms show ?thesis
    by (auto simp: setApprovalForAll_def split: if_splits)
next
  case (TransferFrom frm to tokenId)
  with assms show ?thesis by (auto dest!: transferFrom_Inr split: if_splits)
next
  case (SafeTransferFrom frm to tokenId)
  with assms show ?thesis by (auto dest!: own_safeTransfer_Inr split: if_splits)
qed

lemma never_added_default:
  assumes "issuers s a = default_Issuer" and "\<not> added s txs a"
  shows "issuers (run s txs) a = default_Issuer"
proof -
  have "issuers s a = default_Issuer \<and> \<not> list_ex (\<lambda>(e, c, s1). adds a c) (successes s txs)
          \<longrightarrow> issuers (run s txs) a = default_Issuer"
  proof (rule execution_induct [where Q = "\<lambda>s tr t.
            issuers s a = default_Issuer \<and> \<not> list_ex (\<lambda>(e, c, s1). adds a c) tr
              \<longrightarrow> issuers t a = default_Issuer"], goal_cases)
    case (1 s)
    show ?case by simp
  next
    case (2 s tr1 t tr2 u)
    then show ?case by (simp add: list_ex_iff)
  next
    case (3 e c s s0)
    show ?case
    proof (intro impI)
      assume h: "issuers s a = default_Issuer \<and> \<not> list_ex (\<lambda>(e, c, s1). adds a c) [(e, c, s)]"
      then have "\<not> issuerExists s a" and "\<not> adds a c"
        by (simp_all add: issuerExists_def default_Issuer_def)
      with own_issuers [OF 3, of a] h show "issuers s0 a = default_Issuer"
        by auto
    qed
  next
    case (4 s tr m evs)
    show ?case by simp
  qed
  with assms show ?thesis by (simp add: added_def)
qed

lemma find_append_None:
  "find P (xs @ ys) = None \<longleftrightarrow> find P xs = None \<and> find P ys = None"
  by (auto simp: find_None_iff)

lemma never_issued_default:
  assumes "certificateDetails s tokenId = default_CertificateData"
    and "minter s txs tokenId = None"
  shows "certificateDetails (run s txs) tokenId = default_CertificateData"
proof -
  let ?hit = "\<lambda>(e :: env, c :: call, s1). nextTokenId s1 = tokenId"
  let ?iss = "\<lambda>(e :: env, c, s1 :: state). is_issue c"
  have "certificateDetails s tokenId = default_CertificateData
          \<and> find ?hit (filter ?iss (successes s txs)) = None
          \<longrightarrow> certificateDetails (run s txs) tokenId = default_CertificateData"
  proof (rule execution_induct [where Q = "\<lambda>s tr t.
            certificateDetails s tokenId = default_CertificateData
              \<and> find ?hit (filter ?iss tr) = None
              \<longrightarrow> certificateDetails t tokenId = default_CertificateData"], goal_cases)
    case (1 s)
    show ?case by simp
  next
    case (2 s tr1 t tr2 u)
    then show ?case by (simp add: find_append_None)
  next
    case (3 e c s s0)
    show ?case
    proof (cases "is_issue c")
      case True
      then obtain r rname title where "c = IssueCertificate r rname title"
        by (cases c) simp_all
      with 3 have "issueCertificate_with (\<lambda>s'. s') e r rname title s = Inr s0" by simp
      from own_issue_Inr [OF this] True show ?thesis
        by (auto split: if_splits)
    next
      case False
      with 3 show ?thesis by (simp add: own_other_frame)
    qed
  next
    case (4 s tr m evs)
    show ?case by simp
  qed
  with assms show ?thesis by (simp add: minter_def issuances_def)
qed

lemma tables_constructor:
  "issuers (constructor e0) = (\<lambda>_. default_Issuer)"
  "certificateDetails (constructor e0) = (\<lambda>_. default_CertificateData)"
  "owners (constructor e0) = (\<lambda>_. 0)"
  by (simp_all add: constructor_def setRoleAdmin_def grantRole_internal_def empty_storage_def
        Let_def)

text \<open>
  Claim C7. \<open>getCertificateDetails\<close> fails with \<open>CredentialNotFound\<close> for every
  identifier whose issue timestamp is zero, and such is, after any sequence of calls on
  the deployed contract, every identifier that no successful issuance of the sequence
  assigned. The getter of the issuer table has no failing path, and for an identity that
  no successful \<open>addIssuer\<close> of the sequence named it returns the default record: empty
  name and website, status \<open>Active\<close>, registration date zero.
\<close>

theorem existence_semantics:
  "(\<not> certificateExists s tokenId \<longrightarrow> getCertificateDetails s tokenId = Inl CredentialNotFound)
   \<and> (minter (constructor e0) txs tokenId = None \<longrightarrow>
        getCertificateDetails (run (constructor e0) txs) tokenId = Inl CredentialNotFound)
   \<and> (\<not> added (constructor e0) txs a \<longrightarrow>
        issuers_getter (run (constructor e0) txs) a = Inr default_Issuer)"
proof (intro conjI impI)
  assume "\<not> certificateExists s tokenId"
  then show "getCertificateDetails s tokenId = Inl CredentialNotFound"
    by (simp add: getCertificateDetails_def)
next
  assume "minter (constructor e0) txs tokenId = None"
  then have "certificateDetails (run (constructor e0) txs) tokenId = default_CertificateData"
    by (simp add: never_issued_default tables_constructor)
  then show "getCertificateDetails (run (constructor e0) txs) tokenId = Inl CredentialNotFound"
    by (simp add: getCertificateDetails_def certificateExists_def default_CertificateData_def)
next
  assume "\<not> added (constructor e0) txs a"
  then have "issuers (run (constructor e0) txs) a = default_Issuer"
    by (simp add: never_added_default tables_constructor)
  then show "issuers_getter (run (constructor e0) txs) a = Inr default_Issuer"
    by (simp add: issuers_getter_def)
qed

theorem existence_semantics_witness:
  "\<not> certificateExists (run deployed [tx_add, tx_issue]) 1
   \<and> getCertificateDetails (run deployed [tx_add, tx_issue]) 1 = Inl CredentialNotFound
   \<and> minter (constructor (call_by admin_A 100)) [tx_add, tx_issue, tx_suspend, tx_issue] 1 = None
   \<and> getCertificateDetails
        (run (constructor (call_by admin_A 100)) [tx_add, tx_issue, tx_suspend, tx_issue]) 1
       = Inl CredentialNotFound
   \<and> \<not> added (constructor (call_by admin_A 100)) [tx_add, tx_issue, tx_suspend, tx_issue] issuer_J
   \<and> issuers_getter
        (run (constructor (call_by admin_A 100)) [tx_add, tx_issue, tx_suspend, tx_issue]) issuer_J
       = Inr \<lparr>name = [], website = [], status = Active, registrationDate = 0\<rparr>"
proof -
  have c: "\<not> certificateExists (run deployed [tx_add, tx_issue]) 1"
    by (simp add: scenario_defs contract_defs)
  have m: "minter (constructor (call_by admin_A 100)) [tx_add, tx_issue, tx_suspend, tx_issue] 1
             = None"
    by (simp add: minter_def issuances_def scenario_defs contract_defs)
  have a: "\<not> added (constructor (call_by admin_A 100)) [tx_add, tx_issue, tx_suspend, tx_issue]
             issuer_J"
    by (simp add: added_def scenario_defs contract_defs)
  show ?thesis
    using existence_semantics [of "run deployed [tx_add, tx_issue]" 1 "call_by admin_A 100"
        "[tx_add, tx_issue, tx_suspend, tx_issue]" issuer_J] c m a
    by (simp add: default_Issuer_def)
qed

section \<open>Ownership and the credential record\<close>

lemma ledger_ok_constructor: "ledger_ok (constructor e0)"
  by (simp add: ledger_ok_def tables_constructor nextTokenId_constructor)

lemma ledger_ok_issue:
  assumes ok: "ledger_ok s" and iss: "issueCertificate_with (\<lambda>s'. s') e r rname title s = Inr s'"
  shows "ledger_ok s'"
proof -
  note eff = own_issue_Inr [OF iss]
  from eff have nx: "unat (nextTokenId s') = Suc (unat (nextTokenId s))"
    by (simp add: unat_inc)
  have own: "owners s' = (owners s)(nextTokenId s := r)"
    and cd: "certificateDetails s' = (certificateDetails s)(nextTokenId s :=
                  \<lparr>recipientName = rname, recipientAddress = r, issuerAddress = msg_sender e,
                   issueDate = block_timestamp e, courseTitle = title\<rparr>)"
    and r: "r \<noteq> 0"
    using eff by simp_all
  show ?thesis
    unfolding ledger_ok_def
  proof (intro conjI allI impI)
    fix tokenId :: uint256
    assume lt: "unat tokenId < unat (nextTokenId s')"
    show "owners s' tokenId \<noteq> 0"
    proof (cases "tokenId = nextTokenId s")
      case True
      with own r show ?thesis by simp
    next
      case False
      then have "unat tokenId \<noteq> unat (nextTokenId s)"
        by (simp add: word_unat_eq_iff)
      with lt nx have "unat tokenId < unat (nextTokenId s)" by simp
      with ok have "owners s tokenId \<noteq> 0" unfolding ledger_ok_def by blast
      with False own show ?thesis by simp
    qed
    show "owners s' tokenId = recipientAddress (certificateDetails s' tokenId)"
    proof (cases "tokenId = nextTokenId s")
      case True
      with own cd show ?thesis by simp
    next
      case False
      then have "unat tokenId \<noteq> unat (nextTokenId s)"
        by (simp add: word_unat_eq_iff)
      with lt nx have "unat tokenId < unat (nextTokenId s)" by simp
      with ok have "owners s tokenId = recipientAddress (certificateDetails s tokenId)"
        unfolding ledger_ok_def by blast
      with False own cd show ?thesis by simp
    qed
  next
    fix tokenId :: uint256
    assume "unat (nextTokenId s') \<le> unat tokenId"
    with nx have ge: "unat (nextTokenId s) \<le> unat tokenId" and "tokenId \<noteq> nextTokenId s"
      by auto
    with ok cd show "certificateDetails s' tokenId = default_CertificateData"
      by (simp add: ledger_ok_def)
  qed
qed

lemma ledger_ok_own:
  assumes ok: "ledger_ok s" and d: "own_effect e c s = Inr s'"
  shows "ledger_ok s'"
proof (cases "is_issue c")
  case True
  then obtain r rname title where "c = IssueCertificate r rname title"
    by (cases c) simp_all
  with d ok show ?thesis by (auto intro: ledger_ok_issue)
next
  case False
  with d have fr: "nextTokenId s' = nextTokenId s" "certificateDetails s' = certificateDetails s"
    by (simp_all add: own_other_frame)
  have "owners s' tokenId = owners s tokenId" if "unat tokenId < unat (nextTokenId s)" for tokenId
  proof -
    from ok that have "owners s tokenId \<noteq> 0" unfolding ledger_ok_def by blast
    with d show ?thesis by (rule own_owners_kept)
  qed
  with ok show ?thesis
    unfolding ledger_ok_def fr by metis
qed

lemma ledger_ok_log: "ledger_ok (m\<lparr>events := evs\<rparr>) = ledger_ok m"
  by (simp add: ledger_ok_def)

lemma ledger_ok_run:
  assumes "ledger_ok s"
  shows "ledger_ok (run s txs)"
proof -
  have "ledger_ok s \<longrightarrow> ledger_ok (run s txs)"
  proof (rule execution_induct [where Q = "\<lambda>s tr t. ledger_ok s \<longrightarrow> ledger_ok t"], goal_cases)
    case (1 s)
    show ?case by simp
  next
    case (2 s tr1 t tr2 u)
    then show ?case by simp
  next
    case (3 e c s s0)
    then show ?case by (auto intro: ledger_ok_own)
  next
    case (4 s tr m evs)
    show ?case by (simp add: ledger_ok_log)
  qed
  with assms show ?thesis by simp
qed

text \<open>What a trace of successful calls says of the records: the issuances read the
  counter values from the one before the trace up to the one after it, records below the
  counter stay, and the record at the identifier of an issuance names its sender.\<close>

lemma own_records:
  assumes "own_effect e c s = Inr s0" and "is_issue c"
  shows "issuerAddress (certificateDetails s0 (nextTokenId s)) = msg_sender e"
proof -
  from assms(2) obtain r rname title where "c = IssueCertificate r rname title"
    by (cases c) simp_all
  with assms(1) have "issueCertificate_with (\<lambda>s'. s') e r rname title s = Inr s0" by simp
  from own_issue_Inr [OF this] show ?thesis by auto
qed

lemma trace_records:
  "(map (\<lambda>(e, c, s1). unat (nextTokenId s1)) (issuances s txs)
      = [unat (nextTokenId s)..<unat (nextTokenId (run s txs))]
    \<and> unat (nextTokenId s) \<le> unat (nextTokenId (run s txs)))
   \<and> (\<forall>tokenId. unat tokenId < unat (nextTokenId s) \<longrightarrow>
         certificateDetails (run s txs) tokenId = certificateDetails s tokenId)
   \<and> (\<forall>x \<in> set (issuances s txs).
         issuerAddress (certificateDetails (run s txs) (nextTokenId (snd (snd x))))
           = msg_sender (fst x))"
  unfolding issuances_def
proof (rule execution_induct [where Q = "\<lambda>s tr t.
          (map (\<lambda>(e, c, s1). unat (nextTokenId s1)) (filter (\<lambda>(e, c, s1). is_issue c) tr)
             = [unat (nextTokenId s)..<unat (nextTokenId t)]
           \<and> unat (nextTokenId s) \<le> unat (nextTokenId t))
          \<and> (\<forall>tokenId. unat tokenId < unat (nextTokenId s) \<longrightarrow>
                certificateDetails t tokenId = certificateDetails s tokenId)
          \<and> (\<forall>x \<in> set (filter (\<lambda>(e, c, s1). is_issue c) tr).
                issuerAddress (certificateDetails t (nextTokenId (snd (snd x))))
                  = msg_sender (fst x))"], goal_cases)
  case (1 s)
  show ?case by simp
next
  case (2 s tr1 t tr2 u)
  let ?iss = "\<lambda>(e :: env, c, s1 :: state). is_issue c"
  let ?key = "\<lambda>(e :: env, c :: call, s1). unat (nextTokenId s1)"
  from 2 have a1: "map ?key (filter ?iss tr1) = [unat (nextTokenId s)..<unat (nextTokenId t)]"
    and l1: "unat (nextTokenId s) \<le> unat (nextTokenId t)"
    and k1: "\<And>tokenId. unat tokenId < unat (nextTokenId s) \<Longrightarrow>
                certificateDetails t tokenId = certificateDetails s tokenId"
    and r1: "\<And>x. x \<in> set (filter ?iss tr1) \<Longrightarrow>
                issuerAddress (certificateDetails t (nextTokenId (snd (snd x)))) = msg_sender (fst x)"
    and a2: "map ?key (filter ?iss tr2) = [unat (nextTokenId t)..<unat (nextTokenId u)]"
    and l2: "unat (nextTokenId t) \<le> unat (nextTokenId u)"
    and k2: "\<And>tokenId. unat tokenId < unat (nextTokenId t) \<Longrightarrow>
                certificateDetails u tokenId = certificateDetails t tokenId"
    and r2: "\<And>x. x \<in> set (filter ?iss tr2) \<Longrightarrow>
                issuerAddress (certificateDetails u (nextTokenId (snd (snd x)))) = msg_sender (fst x)"
    by blast+
  have "map ?key (filter ?iss (tr1 @ tr2)) = [unat (nextTokenId s)..<unat (nextTokenId u)]"
    using a1 a2 l1 l2 by (simp add: upt_glue)
  moreover have "unat (nextTokenId s) \<le> unat (nextTokenId u)"
    using l1 l2 by simp
  moreover have "certificateDetails u tokenId = certificateDetails s tokenId"
    if "unat tokenId < unat (nextTokenId s)" for tokenId
    using that k1 [of tokenId] k2 [of tokenId] l1 by simp
  moreover have "issuerAddress (certificateDetails u (nextTokenId (snd (snd x)))) = msg_sender (fst x)"
    if x: "x \<in> set (filter ?iss (tr1 @ tr2))" for x
  proof (cases "x \<in> set (filter ?iss tr1)")
    case True
    then have "?key x \<in> set (map ?key (filter ?iss tr1))" by (simp only: set_map image_eqI)
    with a1 have "unat (nextTokenId (snd (snd x))) < unat (nextTokenId t)"
      by (auto simp: case_prod_beta)
    from k2 [OF this] r1 [OF True] show ?thesis by simp
  next
    case False
    with x have "x \<in> set (filter ?iss tr2)" by auto
    then show ?thesis by (rule r2)
  qed
  ultimately show ?case by blast
next
  case (3 e c s s0)
  from own_counter [OF 3] own_record_kept [OF 3] own_records [OF 3] show ?case
    by (cases "is_issue c") (simp_all add: upt_conv_Cons del: upt_Suc)
next
  case (4 s tr m evs)
  show ?case by simp
qed

lemma minter_found:
  assumes "certificateExists (run (constructor e0) txs) tokenId"
  shows "minter (constructor e0) txs tokenId
           = Some (issuerAddress (certificateDetails (run (constructor e0) txs) tokenId))"
proof -
  let ?s = "constructor e0"
  let ?t = "run ?s txs"
  have ok: "ledger_ok ?t"
    by (simp add: ledger_ok_run ledger_ok_constructor)
  have lt: "unat tokenId < unat (nextTokenId ?t)"
  proof (rule ccontr)
    assume "\<not> unat tokenId < unat (nextTokenId ?t)"
    with ok have "certificateDetails ?t tokenId = default_CertificateData"
      by (simp add: ledger_ok_def)
    with assms show False
      by (simp add: certificateExists_def default_CertificateData_def)
  qed
  note tr = trace_records [of ?s txs]
  from tr have keys: "map (\<lambda>(e, c, s1). unat (nextTokenId s1)) (issuances ?s txs)
      = [0..<unat (nextTokenId ?t)]"
    by (simp add: nextTokenId_constructor)
  from lt have "unat tokenId \<in> set [0..<unat (nextTokenId ?t)]" by simp
  with keys have "unat tokenId \<in> (\<lambda>(e, c, s1). unat (nextTokenId s1)) ` set (issuances ?s txs)"
    by (metis set_map)
  then obtain x where x: "x \<in> set (issuances ?s txs)"
    and "unat (nextTokenId (snd (snd x))) = unat tokenId"
    by (auto simp: case_prod_beta)
  then have hit: "nextTokenId (snd (snd x)) = tokenId"
    by (simp add: word_unat_eq_iff)
  let ?hit = "\<lambda>(e :: env, c :: call, s1). nextTokenId s1 = tokenId"
  obtain ex cx sx where xe: "x = (ex, cx, sx)" by (cases x)
  with x hit have "\<exists>y \<in> set (issuances ?s txs). ?hit y"
    by (intro bexI [of _ x]) simp_all
  then have "find ?hit (issuances ?s txs) \<noteq> None"
    by (auto simp: find_None_iff)
  then obtain y where y: "find ?hit (issuances ?s txs) = Some y" by auto
  then have "y \<in> set (issuances ?s txs)" and "nextTokenId (snd (snd y)) = tokenId"
    by (auto simp: find_Some_iff case_prod_beta)
  with tr have "issuerAddress (certificateDetails ?t tokenId) = msg_sender (fst y)"
    by blast
  with y show ?thesis
    by (simp add: minter_def case_prod_beta)
qed

text \<open>
  Claim C10. After any sequence of calls on the deployed contract, every credential
  that exists (nonzero issue timestamp) has as current owner the recipient stored in its
  record, and as stored issuer the sender of the successful issuance that assigned its
  identifier. Whatever calls follow, the record and the owner stay as they are.
\<close>

theorem owner_and_issuer_match_record:
  assumes "certificateExists (run (constructor e0) txs) tokenId"
  shows "ownerOf_internal (run (constructor e0) txs) tokenId
           = recipientAddress (certificateDetails (run (constructor e0) txs) tokenId)
    \<and> minter (constructor e0) txs tokenId
           = Some (issuerAddress (certificateDetails (run (constructor e0) txs) tokenId))
    \<and> certificateDetails (run (run (constructor e0) txs) later) tokenId
           = certificateDetails (run (constructor e0) txs) tokenId
    \<and> ownerOf_internal (run (run (constructor e0) txs) later) tokenId
           = ownerOf_internal (run (constructor e0) txs) tokenId"
proof -
  let ?s = "run (constructor e0) txs"
  have ok: "ledger_ok ?s"
    by (simp add: ledger_ok_run ledger_ok_constructor)
  have lt: "unat tokenId < unat (nextTokenId ?s)"
  proof (rule ccontr)
    assume "\<not> unat tokenId < unat (nextTokenId ?s)"
    with ok have "certificateDetails ?s tokenId = default_CertificateData"
      by (simp add: ledger_ok_def)
    with assms show False
      by (simp add: certificateExists_def default_CertificateData_def)
  qed
  with ok have own: "owners ?s tokenId \<noteq> 0"
    and rcp: "owners ?s tokenId = recipientAddress (certificateDetails ?s tokenId)"
    unfolding ledger_ok_def by blast+
  have "minter (constructor e0) txs tokenId = Some (issuerAddress (certificateDetails ?s tokenId))"
    using assms by (rule minter_found)
  moreover have "certificateDetails (run ?s later) tokenId = certificateDetails ?s tokenId"
    using run_record_kept [OF lt] by simp
  moreover have "owners (run ?s later) tokenId = owners ?s tokenId"
    using own by (rule run_owners_kept)
  ultimately show ?thesis
    using rcp by (simp add: ownerOf_internal_def)
qed

theorem owner_and_issuer_match_record_witness:
  "certificateExists (run (constructor (call_by admin_A 100)) [tx_add, tx_issue, tx_suspend]) 0
   \<and> ownerOf_internal (run (constructor (call_by admin_A 100)) [tx_add, tx_issue, tx_suspend]) 0
       = recipient_R
   \<and> recipientAddress
        (certificateDetails (run (constructor (call_by admin_A 100)) [tx_add, tx_issue, tx_suspend]) 0)
       = recipient_R
   \<and> minter (constructor (call_by admin_A 100)) [tx_add, tx_issue, tx_suspend] 0 = Some issuer_I
   \<and> issuerAddress
        (certificateDetails (run (constructor (call_by admin_A 100)) [tx_add, tx_issue, tx_suspend]) 0)
       = issuer_I
   \<and> ownerOf_internal
        (run (run (constructor (call_by admin_A 100)) [tx_add, tx_issue, tx_suspend])
           [tx_deactivate, tx_add_J, tx_issue_J]) 0 = recipient_R"
proof -
  have x: "certificateExists (run (constructor (call_by admin_A 100)) [tx_add, tx_issue, tx_suspend]) 0"
    by (simp add: scenario_defs contract_defs)
  have r: "recipientAddress
        (certificateDetails (run (constructor (call_by admin_A 100)) [tx_add, tx_issue, tx_suspend]) 0)
       = recipient_R"
    and i: "issuerAddress
        (certificateDetails (run (constructor (call_by admin_A 100)) [tx_add, tx_issue, tx_suspend]) 0)
       = issuer_I"
    by (simp_all add: scenario_defs contract_defs)
  show ?thesis
    using owner_and_issuer_match_record [OF x, of "[tx_deactivate, tx_add_J, tx_issue_J]"] x r i
    by simp
qed

section \<open>Deactivation\<close>

text \<open>
  Claim C2, at the input where the contract departs from it. The Admin deploys, adds
  the issuer I and deactivates it: the status of I is \<open>Deactivated\<close> and I has lost
  \<open>ISSUER_ROLE\<close>. The Admin then calls \<open>grantRole\<close> for \<open>ISSUER_ROLE\<close> and I, which
  succeeds, \<open>ADMIN_ROLE\<close> being the admin role of \<open>ISSUER_ROLE\<close>: the identity whose
  status is \<open>Deactivated\<close> holds the role again. The status stays \<open>Deactivated\<close>, a
  further \<open>updateIssuerStatus\<close> for I fails with \<open>IssuerDeactivated\<close>, and an issuance
  by I is refused by the status check.
\<close>

theorem role_regranted_after_deactivation:
  "fst (transact (fst tx_deactivate) (snd tx_deactivate) (run deployed [tx_add])) = Inr ()
   \<and> status (issuers (run deployed [tx_add, tx_deactivate]) issuer_I) = Deactivated
   \<and> \<not> hasRole (run deployed [tx_add, tx_deactivate]) ISSUER_ROLE issuer_I
   \<and> fst (transact (fst tx_regrant) (snd tx_regrant) (run deployed [tx_add, tx_deactivate])) = Inr ()
   \<and> hasRole (run deployed [tx_add, tx_deactivate, tx_regrant]) ISSUER_ROLE issuer_I
   \<and> status (issuers (run deployed [tx_add, tx_deactivate, tx_regrant]) issuer_I) = Deactivated
   \<and> updateIssuerStatus (call_by admin_A 106) issuer_I Active
        (run deployed [tx_add, tx_deactivate, tx_regrant]) = Inl IssuerDeactivated
   \<and> issueCertificate (call_by issuer_I 107) recipient_R ''Rosa'' ''Sets''
        (run deployed [tx_add, tx_deactivate, tx_regrant]) = Inl IssuerNotActive"
  by (simp add: scenario_defs contract_defs)

end
